theory Spec2Isabelle
  imports Main "HOL-Library.Log_Nat" "HOL-Library.AList" "HOL-Library.Multiset"
begin

section \<open>The Number type of the host language\<close>

text \<open>
  The source computes totals with \<^verbatim>\<open>parseFloat\<close>, \<^verbatim>\<open>+\<close>, \<^verbatim>\<open>-\<close>, \<^verbatim>\<open>*\<close>, \<^verbatim>\<open>/\<close> and
  \<^verbatim>\<open>Math.round\<close> on values of type \<^verbatim>\<open>number\<close>, that is, on IEEE 754 binary64 values.
  A finite value is kept as the rational it denotes; the two infinities and NaN are
  separate constructors. The two zeros are identified: the program never divides by a
  zero and never prints a sign of zero.
\<close>

datatype number = Fin rat | PInf | NInf | NaN

definition pow2 :: "int \<Rightarrow> rat" where
  "pow2 e = (if 0 \<le> e then 2 ^ nat e else 1 / 2 ^ nat (- e))"

definition ilog2 :: "rat \<Rightarrow> int" where
  \<comment> \<open>the exponent \<open>e\<close> with \<open>2^e \<le> q < 2^(e+1)\<close>, for a positive \<open>q\<close>\<close>
  "ilog2 q = (if 1 \<le> q then bitlen \<lfloor>q\<rfloor> - 1 else - bitlen (\<lceil>1 / q\<rceil> - 1))"

definition round_half_even :: "rat \<Rightarrow> int" where
  "round_half_even m =
     (let f = \<lfloor>m\<rfloor>; d = m - of_int f
      in if d < 1 / 2 then f
         else if 1 / 2 < d then f + 1
         else if even f then f else f + 1)"

definition fl :: "rat \<Rightarrow> number" where
  \<comment> \<open>round to nearest binary64, ties to even: 53 significant bits, exponents from
      -1022 (below that the spacing stays \<open>2^-1074\<close>) to 1023 (above that: infinity)\<close>
  "fl q =
     (if q = 0 then Fin 0
      else
        let a = \<bar>q\<bar>;
            e = max (ilog2 a) (- 1022);
            ulp = pow2 (e - 52);
            r = of_int (round_half_even (a / ulp)) * ulp
        in if pow2 1024 \<le> r then (if 0 < q then PInf else NInf)
           else Fin (if 0 < q then r else - r))"

fun js_add :: "number \<Rightarrow> number \<Rightarrow> number" where
  "js_add NaN _ = NaN"
| "js_add _ NaN = NaN"
| "js_add PInf NInf = NaN"
| "js_add NInf PInf = NaN"
| "js_add PInf _ = PInf"
| "js_add _ PInf = PInf"
| "js_add NInf _ = NInf"
| "js_add _ NInf = NInf"
| "js_add (Fin a) (Fin b) = fl (a + b)"

fun js_neg :: "number \<Rightarrow> number" where
  "js_neg NaN = NaN"
| "js_neg PInf = NInf"
| "js_neg NInf = PInf"
| "js_neg (Fin a) = Fin (- a)"

definition js_sub :: "number \<Rightarrow> number \<Rightarrow> number" where
  "js_sub x y = js_add x (js_neg y)"

fun js_sign :: "number \<Rightarrow> int" where
  \<comment> \<open>-1, 0 or 1; NaN has no sign and is given 0 here\<close>
  "js_sign NaN = 0"
| "js_sign PInf = 1"
| "js_sign NInf = - 1"
| "js_sign (Fin a) = (if 0 < a then 1 else if a < 0 then - 1 else 0)"



fun js_gt :: "number \<Rightarrow> number \<Rightarrow> bool" where
  \<comment> \<open>\<^verbatim>\<open>x > y\<close>; every comparison with NaN is false\<close>
  "js_gt NaN _ = False"
| "js_gt _ NaN = False"
| "js_gt PInf y = (y \<noteq> PInf)"
| "js_gt NInf _ = False"
| "js_gt (Fin a) PInf = False"
| "js_gt (Fin a) NInf = True"
| "js_gt (Fin a) (Fin b) = (b < a)"

fun js_ge :: "number \<Rightarrow> number \<Rightarrow> bool" where
  \<comment> \<open>\<^verbatim>\<open>x >= y\<close>\<close>
  "js_ge NaN _ = False"
| "js_ge _ NaN = False"
| "js_ge PInf _ = True"
| "js_ge _ NInf = True"
| "js_ge NInf _ = False"
| "js_ge (Fin a) PInf = False"
| "js_ge (Fin a) (Fin b) = (b \<le> a)"

definition is_double :: "number \<Rightarrow> bool" where
  \<comment> \<open>a finite binary64 value is a multiple of \<open>2^-1074\<close>\<close>
  "is_double x = (case x of Fin r \<Rightarrow> r * 2 ^ 1074 \<in> \<int> | _ \<Rightarrow> True)"


fun falsy :: "number \<Rightarrow> bool" where
  \<comment> \<open>the numbers that \<^verbatim>\<open>x || 0\<close> replaces by 0\<close>
  "falsy NaN = True"
| "falsy (Fin a) = (a = 0)"
| "falsy _ = False"

subsection \<open>parseFloat\<close>

text \<open>A text is the list of its UTF-8 bytes.\<close>

definition is_digit :: "char \<Rightarrow> bool" where
  "is_digit c = (c \<in> set ''0123456789'')"

definition is_space :: "char \<Rightarrow> bool" where
  \<comment> \<open>the white space and line terminators of one byte: space, tab, line feed, vertical
      tab, form feed, carriage return\<close>
  "is_space c = (c \<in> set [CHR '' '', CHR 0x09, CHR 0x0A, CHR 0x0B, CHR 0x0C, CHR 0x0D])"

definition whiteSpace2 :: "string list" where
  \<comment> \<open>U+00A0, the no-break space\<close>
  "whiteSpace2 = [[CHR 0xC2, CHR 0xA0]]"

definition whiteSpace3 :: "string list" where
  \<comment> \<open>U+1680, U+2000 to U+200A, U+2028 and U+2029 (line and paragraph separator),
      U+202F, U+205F, U+3000, U+FEFF\<close>
  "whiteSpace3 =
     [[CHR 0xE1, CHR 0x9A, CHR 0x80],
      [CHR 0xE2, CHR 0x80, CHR 0x80], [CHR 0xE2, CHR 0x80, CHR 0x81],
      [CHR 0xE2, CHR 0x80, CHR 0x82], [CHR 0xE2, CHR 0x80, CHR 0x83],
      [CHR 0xE2, CHR 0x80, CHR 0x84], [CHR 0xE2, CHR 0x80, CHR 0x85],
      [CHR 0xE2, CHR 0x80, CHR 0x86], [CHR 0xE2, CHR 0x80, CHR 0x87],
      [CHR 0xE2, CHR 0x80, CHR 0x88], [CHR 0xE2, CHR 0x80, CHR 0x89],
      [CHR 0xE2, CHR 0x80, CHR 0x8A],
      [CHR 0xE2, CHR 0x80, CHR 0xA8], [CHR 0xE2, CHR 0x80, CHR 0xA9],
      [CHR 0xE2, CHR 0x80, CHR 0xAF], [CHR 0xE2, CHR 0x81, CHR 0x9F],
      [CHR 0xE3, CHR 0x80, CHR 0x80], [CHR 0xEF, CHR 0xBB, CHR 0xBF]]"

fun trimStart :: "string \<Rightarrow> string" where
  \<comment> \<open>the trimming step of \<^verbatim>\<open>parseFloat\<close>: every leading white space character and line
      terminator goes, those beyond ASCII in their UTF-8 bytes\<close>
  "trimStart (a # b # c # s) =
     (if is_space a then trimStart (b # c # s)
      else if [a, b] \<in> set whiteSpace2 then trimStart (c # s)
      else if [a, b, c] \<in> set whiteSpace3 then trimStart s
      else a # b # c # s)"
| "trimStart [a, b] =
     (if is_space a then trimStart [b]
      else if [a, b] \<in> set whiteSpace2 then []
      else [a, b])"
| "trimStart [a] = (if is_space a then [] else [a])"
| "trimStart [] = []"

definition digit_val :: "char \<Rightarrow> nat" where
  "digit_val c = of_char c - 48"

definition digits_val :: "string \<Rightarrow> nat" where
  "digits_val ds = foldl (\<lambda>n c. 10 * n + digit_val c) 0 ds"

definition pow10 :: "int \<Rightarrow> rat" where
  "pow10 e = (if 0 \<le> e then 10 ^ nat e else 1 / 10 ^ nat (- e))"

definition split_sign :: "string \<Rightarrow> int \<times> string" where
  "split_sign s =
     (case s of
        c # r \<Rightarrow> if c = CHR ''+'' then (1, r) else if c = CHR ''-'' then (- 1, r) else (1, s)
      | [] \<Rightarrow> (1, s))"

definition exponent_part :: "string \<Rightarrow> int" where
  \<comment> \<open>the value of a leading \<^verbatim>\<open>e\<close>, sign, digits; 0 when there is no complete one\<close>
  "exponent_part s =
     (case s of
        c # r \<Rightarrow>
          if c = CHR ''e'' \<or> c = CHR ''E'' then
            (let (sg, r') = split_sign r; ds = takeWhile is_digit r'
             in if ds = [] then 0 else sg * int (digits_val ds))
          else 0
      | [] \<Rightarrow> 0)"

definition parseFloat :: "string \<Rightarrow> number" where
  \<comment> \<open>the longest prefix, after leading white space, that is a decimal literal;
      NaN when there is none\<close>
  "parseFloat s =
     (let (sg, u) = split_sign (trimStart s)
      in if take 8 u = ''Infinity'' then (if 0 < sg then PInf else NInf)
         else
           let ip = takeWhile is_digit u;
               r1 = dropWhile is_digit u;
               (fp, r2) = (case r1 of
                             c # r \<Rightarrow> if c = CHR ''.'' then (takeWhile is_digit r, dropWhile is_digit r)
                                     else ([], r1)
                           | [] \<Rightarrow> ([], r1))
           in if ip = [] \<and> fp = [] then NaN
              else fl (of_int sg
                        * (of_nat (digits_val ip) + of_nat (digits_val fp) / 10 ^ length fp)
                        * pow10 (exponent_part r2)))"


section \<open>Dates\<close>

text \<open>
  A \<^verbatim>\<open>Date\<close> holds a time value: a number of milliseconds. The source reads and builds
  dates in local time only (\<^verbatim>\<open>getFullYear\<close>, \<^verbatim>\<open>setHours\<close>, \<^verbatim>\<open>new Date(y, m, d)\<close>, ...);
  the time values here are local ones, for a zone whose offset is constant. The
  definitions below are the abstract operations of the language standard, under their
  names there. Dates are valid ones: a time value is an integer, and the bound of
  8.64e15 ms on its magnitude is not part of the model.
\<close>

definition msPerDay :: int where
  "msPerDay = 86400000"

definition Day :: "int \<Rightarrow> int" where
  "Day t = t div msPerDay"

definition TimeWithinDay :: "int \<Rightarrow> int" where
  "TimeWithinDay t = t mod msPerDay"

definition DaysInYear :: "int \<Rightarrow> int" where
  "DaysInYear y =
     (if y mod 4 \<noteq> 0 then 365
      else if y mod 100 \<noteq> 0 then 366
      else if y mod 400 \<noteq> 0 then 365
      else 366)"

definition DayFromYear :: "int \<Rightarrow> int" where
  "DayFromYear y =
     365 * (y - 1970) + (y - 1969) div 4 - (y - 1901) div 100 + (y - 1601) div 400"

definition YearFromDay :: "int \<Rightarrow> int" where
  \<comment> \<open>the largest \<open>y\<close> with \<open>DayFromYear y \<le> d\<close>: the mean length of a year puts it within
      one year of the estimate\<close>
  "YearFromDay d =
     (let y = 1970 + (400 * d) div 146097
      in if DayFromYear (y + 1) \<le> d then y + 1
         else if DayFromYear y \<le> d then y
         else y - 1)"

definition YearFromTime :: "int \<Rightarrow> int" where
  "YearFromTime t = YearFromDay (Day t)"

definition InLeapYear :: "int \<Rightarrow> int" where
  "InLeapYear t = (if DaysInYear (YearFromTime t) = 366 then 1 else 0)"

definition DayWithinYear :: "int \<Rightarrow> int" where
  "DayWithinYear t = Day t - DayFromYear (YearFromTime t)"

definition MonthFromTime :: "int \<Rightarrow> int" where
  "MonthFromTime t =
     (let d = DayWithinYear t; l = InLeapYear t
      in if d < 31 then 0
         else if d < 59 + l then 1
         else if d < 90 + l then 2
         else if d < 120 + l then 3
         else if d < 151 + l then 4
         else if d < 181 + l then 5
         else if d < 212 + l then 6
         else if d < 243 + l then 7
         else if d < 273 + l then 8
         else if d < 304 + l then 9
         else if d < 334 + l then 10
         else 11)"

definition DateFromTime :: "int \<Rightarrow> int" where
  "DateFromTime t =
     (let d = DayWithinYear t; l = InLeapYear t; m = MonthFromTime t
      in if m = 0 then d + 1
         else if m = 1 then d - 30
         else if m = 2 then d - 58 - l
         else if m = 3 then d - 89 - l
         else if m = 4 then d - 119 - l
         else if m = 5 then d - 150 - l
         else if m = 6 then d - 180 - l
         else if m = 7 then d - 211 - l
         else if m = 8 then d - 242 - l
         else if m = 9 then d - 272 - l
         else if m = 10 then d - 303 - l
         else d - 333 - l)"

definition WeekDay :: "int \<Rightarrow> int" where
  \<comment> \<open>0 is Sunday\<close>
  "WeekDay t = (Day t + 4) mod 7"

definition MakeTime :: "int \<Rightarrow> int \<Rightarrow> int \<Rightarrow> int \<Rightarrow> int" where
  "MakeTime h m s ms = h * 3600000 + m * 60000 + s * 1000 + ms"

definition DaysBeforeMonth :: "int \<Rightarrow> int \<Rightarrow> int" where
  \<comment> \<open>the day within the year of the first of month \<open>mn\<close> (0 to 11); \<open>l\<close> is 1 in a leap year\<close>
  "DaysBeforeMonth mn l =
     (if mn = 0 then 0
      else if mn = 1 then 31
      else if mn = 2 then 59 + l
      else if mn = 3 then 90 + l
      else if mn = 4 then 120 + l
      else if mn = 5 then 151 + l
      else if mn = 6 then 181 + l
      else if mn = 7 then 212 + l
      else if mn = 8 then 243 + l
      else if mn = 9 then 273 + l
      else if mn = 10 then 304 + l
      else 334 + l)"

definition MakeDay :: "int \<Rightarrow> int \<Rightarrow> int \<Rightarrow> int" where
  \<comment> \<open>the day number of day \<open>dt\<close> of the month; months and days out of range carry over\<close>
  "MakeDay year month dt =
     (let ym = year + month div 12;
          mn = month mod 12;
          l = (if DaysInYear ym = 366 then 1 else 0)
      in DayFromYear ym + DaysBeforeMonth mn l + dt - 1)"

definition MakeDate :: "int \<Rightarrow> int \<Rightarrow> int" where
  "MakeDate day time = day * msPerDay + time"

subsection \<open>The methods of Date that the source calls\<close>

definition getFullYear :: "int \<Rightarrow> int" where
  "getFullYear t = YearFromTime t"

definition getMonth :: "int \<Rightarrow> int" where
  "getMonth t = MonthFromTime t"

definition getDate :: "int \<Rightarrow> int" where
  "getDate t = DateFromTime t"

definition getDay :: "int \<Rightarrow> int" where
  "getDay t = WeekDay t"

definition setDate :: "int \<Rightarrow> int \<Rightarrow> int" where
  "setDate t dt = MakeDate (MakeDay (YearFromTime t) (MonthFromTime t) dt) (TimeWithinDay t)"

definition setHours :: "int \<Rightarrow> int \<Rightarrow> int \<Rightarrow> int \<Rightarrow> int \<Rightarrow> int" where
  "setHours t h m s ms = MakeDate (Day t) (MakeTime h m s ms)"



definition new_Date :: "int \<Rightarrow> int \<Rightarrow> int \<Rightarrow> int \<Rightarrow> int \<Rightarrow> int \<Rightarrow> int \<Rightarrow> int" where
  \<comment> \<open>\<^verbatim>\<open>new Date(y, m, d, h, mi, s, ms)\<close>: a year from 0 to 99 stands for 1900 + year\<close>
  "new_Date y m d h mi s ms =
     (let yr = (if 0 \<le> y \<and> y \<le> 99 then 1900 + y else y)
      in MakeDate (MakeDay yr m d) (MakeTime h mi s ms))"

definition toDateString :: "int \<Rightarrow> int \<times> int \<times> int \<times> int" where
  \<comment> \<open>week day, month, day of the month and year: what the text \<^verbatim>\<open>Thu Feb 15 2024\<close> shows\<close>
  "toDateString t = (WeekDay t, MonthFromTime t, DateFromTime t, YearFromTime t)"


subsection \<open>The calendar in the words of the specification\<close>

definition daysInMonth :: "int \<Rightarrow> int \<Rightarrow> int" where
  \<comment> \<open>the length of month \<open>m\<close> (0 to 11) of year \<open>y\<close>: 28 or 29, 30, 31 days\<close>
  "daysInMonth y m =
     (if m = 1 then (if DaysInYear y = 366 then 29 else 28)
      else if m = 3 \<or> m = 5 \<or> m = 8 \<or> m = 10 then 30
      else 31)"

definition resolveWindow :: "string \<Rightarrow> int \<Rightarrow> (int \<times> int) option" where
  \<comment> \<open>Modelled from the spec: the Period Resolver of its section 4.1, word for word. Day:
      the reference at 00:00:00.000 and at 23:59:59.999. Week: the most recent Sunday at or
      before the reference, and six days later. Month: the first and the last calendar day
      of the month. Year: Jan 1 and Dec 31.\<close>
  "resolveWindow unit referenceDate =
     (let y = YearFromTime referenceDate; m = MonthFromTime referenceDate;
          sunday = Day referenceDate - WeekDay referenceDate;
          first = MakeTime 0 0 0 0; last = MakeTime 23 59 59 999
      in if unit = ''day'' then
           Some (MakeDate (Day referenceDate) first, MakeDate (Day referenceDate) last)
         else if unit = ''week'' then
           Some (MakeDate sunday first, MakeDate (sunday + 6) last)
         else if unit = ''month'' then
           Some (MakeDate (MakeDay y m 1) first, MakeDate (MakeDay y m (daysInMonth y m)) last)
         else if unit = ''year'' then
           Some (MakeDate (MakeDay y 0 1) first, MakeDate (MakeDay y 11 31) last)
         else None)"

section \<open>The data model\<close>

text \<open>
  The row types come from the shared schema. An optional text field is \<open>None\<close> when it
  is \<^verbatim>\<open>null\<close>. \<open>amount\<close> is the decimal text as stored. Of a user only the fields that
  the storage classes read are kept.
\<close>

record User =
  user_id :: int
  username :: string
  password :: string

record InsertUser =
  i_username :: string
  i_password :: string

record Category =
  cat_id :: int
  name :: string
  icon :: string
  color :: string

record InsertCategory =
  i_name :: string
  i_icon :: string
  i_color :: string

record Expense =
  exp_id :: int
  userId :: int
  amount :: string
  categoryId :: int
  merchant :: "string option"
  description :: "string option"
  date :: int
  receiptUrl :: "string option"
  e_notes :: "string option"
  source :: string
  createdAt :: int

text \<open>
  \<^verbatim>\<open>InsertExpense\<close>: the optional fields may be absent or \<^verbatim>\<open>null\<close>, both \<open>None\<close> here,
  since the source reads them through \<^verbatim>\<open>||\<close>. \<open>i_date\<close> is the time value of
  \<^verbatim>\<open>new Date(insertExpense.date)\<close>.
\<close>

record InsertExpense =
  i_userId :: int
  i_amount :: string
  i_categoryId :: int
  i_merchant :: "string option"
  i_description :: "string option"
  i_date :: int
  i_receiptUrl :: "string option"
  i_notes :: "string option"
  i_source :: "string option"

text \<open>
  \<^verbatim>\<open>Partial<InsertExpense>\<close>: \<open>None\<close> is an absent key; for the nullable fields
  \<open>Some None\<close> is a key set to \<^verbatim>\<open>null\<close>.
\<close>

record UpdateExpense =
  u_userId :: "int option"
  u_amount :: "string option"
  u_categoryId :: "int option"
  u_merchant :: "string option option"
  u_description :: "string option option"
  u_date :: "int option"
  u_receiptUrl :: "string option option"
  u_notes :: "string option option"
  u_source :: "string option"

text \<open>An expense with its category; \<open>None\<close> is \<^verbatim>\<open>undefined\<close>.\<close>

record ExpenseWithCategory = Expense +
  category :: "Category option"

record CategoryTotal =
  t_categoryId :: int
  categoryName :: string
  total :: number
  t_color :: string
  t_icon :: string

datatype error =
    TypeError           \<comment> \<open>a property read on \<^verbatim>\<open>undefined\<close>\<close>
  | InvalidPeriod string \<comment> \<open>\<^verbatim>\<open>throw new Error(`Invalid period: ${period}`)\<close>\<close>
  | DbError             \<comment> \<open>the database rejects the statement\<close>

subsection \<open>Arrays and maps of the host language\<close>

text \<open>
  A \<^verbatim>\<open>Map\<close> keeps its entries in insertion order: it is an association list with
  distinct keys, \<^verbatim>\<open>set\<close> is \<^const>\<open>AList.update\<close> (in place for a present key, at the end
  for a new one) and \<^verbatim>\<open>delete\<close> is \<^const>\<open>AList.delete\<close>.

  \<^verbatim>\<open>Array.prototype.sort\<close> is stable. \<open>cmp a b\<close> is negative when \<open>a\<close> comes first,
  positive when \<open>b\<close> does; elements that compare as 0 keep their order. For a consistent
  comparator the result is the one of any stable sort; an insertion sort is taken.
\<close>

fun insort_cmp :: "('a \<Rightarrow> 'a \<Rightarrow> int) \<Rightarrow> 'a \<Rightarrow> 'a list \<Rightarrow> 'a list" where
  "insort_cmp cmp x [] = [x]"
| "insort_cmp cmp x (y # ys) =
     (if cmp x y \<le> 0 then x # y # ys else y # insort_cmp cmp x ys)"

definition js_sort :: "('a \<Rightarrow> 'a \<Rightarrow> int) \<Rightarrow> 'a list \<Rightarrow> 'a list" where
  "js_sort cmp xs = foldr (insort_cmp cmp) xs []"

section \<open>MemStorage\<close>

record MemStorage =
  users :: "(int \<times> User) list"
  categories :: "(int \<times> Category) list"
  expenses :: "(int \<times> Expense) list"
  currentUserId :: int
  currentCategoryId :: int
  currentExpenseId :: int

definition defaultCategories :: "InsertCategory list" where
  "defaultCategories =
     [\<lparr>i_name = ''Food'', i_icon = ''fas fa-utensils'', i_color = ''blue''\<rparr>,
      \<lparr>i_name = ''Transport'', i_icon = ''fas fa-car'', i_color = ''green''\<rparr>,
      \<lparr>i_name = ''Shopping'', i_icon = ''fas fa-shopping-bag'', i_color = ''purple''\<rparr>,
      \<lparr>i_name = ''Business'', i_icon = ''fas fa-briefcase'', i_color = ''amber''\<rparr>,
      \<lparr>i_name = ''Entertainment'', i_icon = ''fas fa-film'', i_color = ''red''\<rparr>,
      \<lparr>i_name = ''Health'', i_icon = ''fas fa-heart'', i_color = ''pink''\<rparr>,
      \<lparr>i_name = ''Education'', i_icon = ''fas fa-graduation-cap'', i_color = ''indigo''\<rparr>,
      \<lparr>i_name = ''Utilities'', i_icon = ''fas fa-bolt'', i_color = ''yellow''\<rparr>]"

definition createCategory :: "MemStorage \<Rightarrow> InsertCategory \<Rightarrow> MemStorage \<times> Category" where
  "createCategory s insertCategory =
     (let id = currentCategoryId s;
          category = \<lparr>cat_id = id, name = i_name insertCategory,
                      icon = i_icon insertCategory, color = i_color insertCategory\<rparr>
      in (s\<lparr>currentCategoryId := id + 1,
            categories := AList.update id category (categories s)\<rparr>, category))"

definition initializeDefaultCategories :: "MemStorage \<Rightarrow> MemStorage" where
  \<comment> \<open>the loop body is the one of \<open>createCategory\<close>\<close>
  "initializeDefaultCategories s = foldl (\<lambda>s cat. fst (createCategory s cat)) s defaultCategories"

definition sampleExpenses :: "int \<Rightarrow> InsertExpense list" where
  "sampleExpenses now =
     [\<lparr>i_userId = 1, i_amount = ''15.50'', i_categoryId = 1, i_merchant = Some ''Starbucks'',
       i_description = Some ''Morning coffee'', i_date = now, i_receiptUrl = None,
       i_notes = Some ''Latte with extra shot'', i_source = Some ''manual''\<rparr>,
      \<lparr>i_userId = 1, i_amount = ''45.80'', i_categoryId = 1, i_merchant = Some ''Thai Restaurant'',
       i_description = Some ''Lunch meeting'', i_date = now, i_receiptUrl = None,
       i_notes = Some ''Business lunch'', i_source = Some ''manual''\<rparr>,
      \<lparr>i_userId = 1, i_amount = ''25.00'', i_categoryId = 2, i_merchant = Some ''Uber'',
       i_description = Some ''Ride to airport'', i_date = now - 24 * 60 * 60 * 1000,
       i_receiptUrl = None, i_notes = None, i_source = Some ''ai_scan''\<rparr>,
      \<lparr>i_userId = 1, i_amount = ''120.00'', i_categoryId = 3, i_merchant = Some ''Amazon'',
       i_description = Some ''Office supplies'', i_date = now - 3 * 24 * 60 * 60 * 1000,
       i_receiptUrl = None, i_notes = Some ''Desk organizers and notebooks'',
       i_source = Some ''bank_sync''\<rparr>,
      \<lparr>i_userId = 1, i_amount = ''85.90'', i_categoryId = 8, i_merchant = Some ''Electric Company'',
       i_description = Some ''Monthly electricity bill'', i_date = now - 10 * 24 * 60 * 60 * 1000,
       i_receiptUrl = None, i_notes = None, i_source = Some ''bank_sync''\<rparr>,
      \<lparr>i_userId = 1, i_amount = ''200.00'', i_categoryId = 4, i_merchant = Some ''Co-working Space'',
       i_description = Some ''Monthly membership'', i_date = now - 15 * 24 * 60 * 60 * 1000,
       i_receiptUrl = None, i_notes = Some ''Premium plan with meeting rooms'',
       i_source = Some ''manual''\<rparr>]"

definition initializeSampleData :: "int \<Rightarrow> MemStorage \<Rightarrow> MemStorage" where
  \<comment> \<open>the sample rows are copied field by field, without the \<^verbatim>\<open>||\<close> defaults\<close>
  "initializeSampleData now s =
     foldl (\<lambda>s expenseData.
              let id = currentExpenseId s;
                  expense = \<lparr>exp_id = id, userId = i_userId expenseData,
                             amount = i_amount expenseData, categoryId = i_categoryId expenseData,
                             merchant = i_merchant expenseData,
                             description = i_description expenseData,
                             date = i_date expenseData, receiptUrl = None,
                             e_notes = i_notes expenseData,
                             source = the (i_source expenseData), createdAt = now\<rparr>
              in s\<lparr>currentExpenseId := id + 1,
                   expenses := AList.update id expense (expenses s)\<rparr>)
           s (sampleExpenses now)"

definition constructor :: "int \<Rightarrow> MemStorage" where
  \<comment> \<open>\<open>now\<close> is what the clock shows\<close>
  "constructor now =
     initializeSampleData now
       (initializeDefaultCategories
          \<lparr>users = [], categories = [], expenses = [],
           currentUserId = 1, currentCategoryId = 1, currentExpenseId = 1\<rparr>)"

definition getUser :: "MemStorage \<Rightarrow> int \<Rightarrow> User option" where
  "getUser s uid = map_of (users s) uid"

definition getUserByUsername :: "MemStorage \<Rightarrow> string \<Rightarrow> User option" where
  "getUserByUsername s un = find (\<lambda>user. username user = un) (map snd (users s))"

definition createUser :: "MemStorage \<Rightarrow> InsertUser \<Rightarrow> MemStorage \<times> User" where
  "createUser s insertUser =
     (let id = currentUserId s;
          user = \<lparr>user_id = id, username = i_username insertUser,
                  password = i_password insertUser\<rparr>
      in (s\<lparr>currentUserId := id + 1, users := AList.update id user (users s)\<rparr>, user))"

definition getAllCategories :: "MemStorage \<Rightarrow> Category list" where
  "getAllCategories s = map snd (categories s)"

definition spreadCategory :: "Expense \<Rightarrow> Category option \<Rightarrow> ExpenseWithCategory" where
  \<comment> \<open>\<^verbatim>\<open>{...expense, category: c}\<close>\<close>
  "spreadCategory e c =
     \<lparr>exp_id = exp_id e, userId = userId e, amount = amount e, categoryId = categoryId e,
      merchant = merchant e, description = description e, date = date e,
      receiptUrl = receiptUrl e, e_notes = e_notes e, source = source e,
      createdAt = createdAt e, category = c\<rparr>"

definition withCategory :: "MemStorage \<Rightarrow> Expense \<Rightarrow> ExpenseWithCategory" where
  \<comment> \<open>\<^verbatim>\<open>{...expense, category: this.categories.get(expense.categoryId)!}\<close>\<close>
  "withCategory s expense = spreadCategory expense (map_of (categories s) (categoryId expense))"

definition byDateDesc :: "Expense \<Rightarrow> Expense \<Rightarrow> int" where
  \<comment> \<open>\<^verbatim>\<open>(a, b) => new Date(b.date).getTime() - new Date(a.date).getTime()\<close>\<close>
  "byDateDesc a b = date b - date a"

definition getExpensesByUserId :: "MemStorage \<Rightarrow> int \<Rightarrow> ExpenseWithCategory list" where
  "getExpensesByUserId s uid =
     (let userExpenses =
            js_sort byDateDesc (filter (\<lambda>expense. userId expense = uid) (map snd (expenses s)))
      in map (withCategory s) userExpenses)"

definition getExpensesByUserIdAndMonth ::
  "MemStorage \<Rightarrow> int \<Rightarrow> int \<Rightarrow> int \<Rightarrow> ExpenseWithCategory list" where
  "getExpensesByUserIdAndMonth s uid year month =
     (let userExpenses =
            js_sort byDateDesc
              (filter (\<lambda>expense.
                         if userId expense \<noteq> uid then False
                         else let expenseDate = date expense
                              in getFullYear expenseDate = year \<and> getMonth expenseDate = month - 1)
                 (map snd (expenses s)))
      in map (withCategory s) userExpenses)"

definition or_null :: "string option \<Rightarrow> string option" where
  \<comment> \<open>\<^verbatim>\<open>x || null\<close>: the empty text counts as absent\<close>
  "or_null x = (case x of None \<Rightarrow> None | Some t \<Rightarrow> if t = [] then None else Some t)"

definition createExpense :: "int \<Rightarrow> MemStorage \<Rightarrow> InsertExpense \<Rightarrow> MemStorage \<times> Expense" where
  "createExpense now s insertExpense =
     (let id = currentExpenseId s;
          expense = \<lparr>exp_id = id,
                     userId = i_userId insertExpense,
                     amount = i_amount insertExpense,
                     categoryId = i_categoryId insertExpense,
                     merchant = or_null (i_merchant insertExpense),
                     description = or_null (i_description insertExpense),
                     date = i_date insertExpense,
                     receiptUrl = or_null (i_receiptUrl insertExpense),
                     e_notes = or_null (i_notes insertExpense),
                     source = (case or_null (i_source insertExpense) of
                                 None \<Rightarrow> ''manual'' | Some t \<Rightarrow> t),
                     createdAt = now\<rparr>
      in (s\<lparr>currentExpenseId := id + 1,
            expenses := AList.update id expense (expenses s)\<rparr>, expense))"

definition spread :: "'a \<Rightarrow> 'a option \<Rightarrow> 'a" where
  \<comment> \<open>one field of \<^verbatim>\<open>{...expense, ...updateData}\<close>\<close>
  "spread old new = (case new of None \<Rightarrow> old | Some v \<Rightarrow> v)"

definition updateExpense ::
  "MemStorage \<Rightarrow> int \<Rightarrow> UpdateExpense \<Rightarrow> MemStorage \<times> Expense option" where
  "updateExpense s eid updateData =
     (case map_of (expenses s) eid of
        None \<Rightarrow> (s, None)
      | Some expense \<Rightarrow>
          let updatedExpense =
                expense\<lparr>userId := spread (userId expense) (u_userId updateData),
                        amount := spread (amount expense) (u_amount updateData),
                        categoryId := spread (categoryId expense) (u_categoryId updateData),
                        merchant := spread (merchant expense) (u_merchant updateData),
                        description := spread (description expense) (u_description updateData),
                        receiptUrl := spread (receiptUrl expense) (u_receiptUrl updateData),
                        e_notes := spread (e_notes expense) (u_notes updateData),
                        source := spread (source expense) (u_source updateData),
                        date := (case u_date updateData of Some d \<Rightarrow> d | None \<Rightarrow> date expense)\<rparr>
          in (s\<lparr>expenses := AList.update eid updatedExpense (expenses s)\<rparr>, Some updatedExpense))"

definition deleteExpense :: "MemStorage \<Rightarrow> int \<Rightarrow> MemStorage \<times> bool" where
  "deleteExpense s eid =
     (s\<lparr>expenses := AList.delete eid (expenses s)\<rparr>, eid \<in> fst ` set (expenses s))"

definition addToTotals ::
  "(int \<times> number) list \<Rightarrow> ExpenseWithCategory \<Rightarrow> (int \<times> number) list" where
  \<comment> \<open>the body of the \<^verbatim>\<open>forEach\<close>\<close>
  "addToTotals categoryTotals expense =
     (let current = (case map_of categoryTotals (categoryId expense) of
                       None \<Rightarrow> Fin 0
                     | Some v \<Rightarrow> if falsy v then Fin 0 else v)
      in AList.update (categoryId expense) (js_add current (parseFloat (amount expense)))
           categoryTotals)"

definition byTotalDesc :: "CategoryTotal \<Rightarrow> CategoryTotal \<Rightarrow> int" where
  \<comment> \<open>\<^verbatim>\<open>(a, b) => b.total - a.total\<close>; the sort reads NaN as 0\<close>
  "byTotalDesc a b = js_sign (js_sub (total b) (total a))"

fun totalsWithCategory ::
  "MemStorage \<Rightarrow> (int \<times> number) list \<Rightarrow> error + CategoryTotal list" where
  \<comment> \<open>the \<^verbatim>\<open>map\<close> over the entries: \<^verbatim>\<open>category.name\<close> throws when there is no category\<close>
  "totalsWithCategory s [] = Inr []"
| "totalsWithCategory s ((cid, tot) # rest) =
     (case map_of (categories s) cid of
        None \<Rightarrow> Inl TypeError
      | Some cat \<Rightarrow>
          (case totalsWithCategory s rest of
             Inl e \<Rightarrow> Inl e
           | Inr result \<Rightarrow>
               Inr (\<lparr>t_categoryId = cid, categoryName = name cat, total = tot,
                      t_color = color cat, t_icon = icon cat\<rparr> # result)))"

definition categoryTotalsOf ::
  "MemStorage \<Rightarrow> ExpenseWithCategory list \<Rightarrow> error + CategoryTotal list" where
  \<comment> \<open>the part that \<open>getCategoryTotals\<close> and \<open>getCategoryTotalsByPeriod\<close> repeat word for word\<close>
  "categoryTotalsOf s windowExpenses =
     (let categoryTotals = foldl addToTotals [] windowExpenses
      in case totalsWithCategory s categoryTotals of
           Inl e \<Rightarrow> Inl e
         | Inr result \<Rightarrow> Inr (js_sort byTotalDesc result))"

definition getCategoryTotals ::
  "MemStorage \<Rightarrow> int \<Rightarrow> int \<Rightarrow> int \<Rightarrow> error + CategoryTotal list" where
  "getCategoryTotals s uid year month =
     categoryTotalsOf s (getExpensesByUserIdAndMonth s uid year month)"

definition inPeriod :: "string \<Rightarrow> int \<Rightarrow> int \<Rightarrow> bool" where
  \<comment> \<open>the \<^verbatim>\<open>switch\<close> of the filter in \<open>getExpensesByUserIdAndPeriod\<close>\<close>
  "inPeriod period referenceDate expenseDate =
     (if period = ''day'' then toDateString expenseDate = toDateString referenceDate
      else if period = ''week'' then
        (let weekStart = setHours (setDate referenceDate (getDate referenceDate - getDay referenceDate)) 0 0 0 0;
             weekEnd = setHours (setDate weekStart (getDate weekStart + 6)) 23 59 59 999
         in weekStart \<le> expenseDate \<and> expenseDate \<le> weekEnd)
      else if period = ''month'' then
        getFullYear expenseDate = getFullYear referenceDate
        \<and> getMonth expenseDate = getMonth referenceDate
      else if period = ''year'' then
        getFullYear expenseDate = getFullYear referenceDate
      else False)"

definition getExpensesByUserIdAndPeriod ::
  "MemStorage \<Rightarrow> int \<Rightarrow> string \<Rightarrow> int \<Rightarrow> ExpenseWithCategory list" where
  "getExpensesByUserIdAndPeriod s uid period dt =
     (let userExpenses =
            js_sort byDateDesc
              (filter (\<lambda>expense.
                         if userId expense \<noteq> uid then False
                         else inPeriod period dt (date expense))
                 (map snd (expenses s)))
      in map (withCategory s) userExpenses)"

definition getCategoryTotalsByPeriod ::
  "MemStorage \<Rightarrow> int \<Rightarrow> string \<Rightarrow> int \<Rightarrow> error + CategoryTotal list" where
  "getCategoryTotalsByPeriod s uid period dt =
     categoryTotalsOf s (getExpensesByUserIdAndPeriod s uid period dt)"


section \<open>DatabaseStorage\<close>

text \<open>
  The class sends its statements to \<^verbatim>\<open>db\<close>, which is not part of the sources at hand.
  The database is two tables of rows; a statement is read as the relational query it
  writes down.
\<close>

record Database =
  db_categories :: "Category list"
  db_expenses :: "Expense list"

definition joined :: "Database \<Rightarrow> (Expense \<Rightarrow> bool) \<Rightarrow> (Expense \<times> Category) list" where
  \<comment> \<open>Modelled from the spec: \<^verbatim>\<open>db\<close> and its query builder are missing. This is
      \<^verbatim>\<open>from(expenses).innerJoin(categories, eq(expenses.categoryId, categories.id)).where(p)\<close>:
      a range-filtered read of the expense rows, each with the category rows of its
      \<open>categoryId\<close>.\<close>
  "joined db p =
     concat (map (\<lambda>e. map (\<lambda>c. (e, c)) (filter (\<lambda>c. categoryId e = cat_id c) (db_categories db)))
                 (filter p (db_expenses db)))"

definition selectExpenses :: "Database \<Rightarrow> (Expense \<Rightarrow> bool) \<Rightarrow> ExpenseWithCategory list" where
  \<comment> \<open>Modelled from the spec: the \<^verbatim>\<open>select\<close> of the expense columns with the nested
      category, \<^verbatim>\<open>orderBy(desc(expenses.date))\<close>. Rows of equal date come in any order in
      SQL; here in table order.\<close>
  "selectExpenses db p =
     sort_key (\<lambda>row. - date row)
       (map (\<lambda>(e, c). spreadCategory e (Some c)) (joined db p))"

definition is_blank :: "char \<Rightarrow> bool" where
  "is_blank c = (c = CHR '' '')"

definition castDecimal :: "string \<Rightarrow> rat option" where
  \<comment> \<open>Modelled from the spec: \<^verbatim>\<open>cast(amount as decimal)\<close> of a text that is a plain
      decimal literal (sign, digits, at most one point); any other text is refused.\<close>
  "castDecimal s =
     (let t = rev (dropWhile is_blank (rev (dropWhile is_blank s)));
          (sg, u) = split_sign t;
          ip = takeWhile is_digit u;
          r1 = dropWhile is_digit u;
          (fp, r2) = (case r1 of
                        c # r \<Rightarrow> if c = CHR ''.'' then (takeWhile is_digit r, dropWhile is_digit r)
                                else ([], r1)
                      | [] \<Rightarrow> ([], r1))
      in if (ip = [] \<and> fp = []) \<or> r2 \<noteq> [] then None
         else Some (of_int sg * (of_nat (digits_val ip) + of_nat (digits_val fp) / 10 ^ length fp)))"

fun sumDecimal :: "string list \<Rightarrow> rat option" where
  "sumDecimal [] = Some 0"
| "sumDecimal (a # as) =
     (case castDecimal a of
        None \<Rightarrow> None
      | Some x \<Rightarrow> (case sumDecimal as of None \<Rightarrow> None | Some y \<Rightarrow> Some (x + y)))"

definition groupSums :: "(Expense \<times> Category) list \<Rightarrow> (Category \<times> rat) list option" where
  \<comment> \<open>Modelled from the spec: \<^verbatim>\<open>groupBy\<close> of the four category columns with
      \<^verbatim>\<open>sum(cast(amount as decimal))\<close>: one row for each category among the joined rows.\<close>
  "groupSums rows =
     those (map (\<lambda>c. map_option (Pair c)
                       (sumDecimal (map (amount \<circ> fst) (filter (\<lambda>(e, c'). c' = c) rows))))
                (remdups (map snd rows)))"

definition Number_of_decimal :: "rat \<Rightarrow> number" where
  \<comment> \<open>\<^verbatim>\<open>Number(row.total)\<close>: the driver hands a decimal over as its text\<close>
  "Number_of_decimal x = fl x"

definition selectTotals :: "Database \<Rightarrow> (Expense \<Rightarrow> bool) \<Rightarrow> error + CategoryTotal list" where
  \<comment> \<open>the statement of \<open>getCategoryTotals\<close> and \<open>getCategoryTotalsByPeriod\<close>, ordered by
      the sum, largest first, and the \<^verbatim>\<open>map\<close> over its rows\<close>
  "selectTotals db p =
     (case groupSums (joined db p) of
        None \<Rightarrow> Inl DbError
      | Some result \<Rightarrow>
          Inr (map (\<lambda>(c, tot).
                      \<lparr>t_categoryId = cat_id c, categoryName = name c,
                       total = (let n = Number_of_decimal tot in if falsy n then Fin 0 else n),
                       t_color = color c, t_icon = icon c\<rparr>)
                   (sort_key (\<lambda>(c, tot). - tot) result)))"

definition periodWindow :: "string \<Rightarrow> int \<Rightarrow> error + int \<times> int" where
  \<comment> \<open>the \<^verbatim>\<open>switch\<close> that \<open>getExpensesByUserIdAndPeriod\<close> and \<open>getCategoryTotalsByPeriod\<close>
      repeat word for word: \<open>(startDate, endDate)\<close>\<close>
  "periodWindow period referenceDate =
     (if period = ''day'' then
        Inr (setHours referenceDate 0 0 0 0, setHours referenceDate 23 59 59 999)
      else if period = ''week'' then
        (let startDate = setHours (setDate referenceDate (getDate referenceDate - getDay referenceDate)) 0 0 0 0;
             endDate = setHours (setDate startDate (getDate startDate + 6)) 23 59 59 999
         in Inr (startDate, endDate))
      else if period = ''month'' then
        Inr (new_Date (getFullYear referenceDate) (getMonth referenceDate) 1 0 0 0 0,
             new_Date (getFullYear referenceDate) (getMonth referenceDate + 1) 0 23 59 59 999)
      else if period = ''year'' then
        Inr (new_Date (getFullYear referenceDate) 0 1 0 0 0 0,
             new_Date (getFullYear referenceDate) 11 31 23 59 59 999)
      else Inl (InvalidPeriod period))"

definition monthWindow :: "int \<Rightarrow> int \<Rightarrow> int \<times> int" where
  \<comment> \<open>the first two lines of \<open>getExpensesByUserIdAndMonth\<close> and of \<open>getCategoryTotals\<close>\<close>
  "monthWindow year month =
     (new_Date year (month - 1) 1 0 0 0 0, new_Date year month 0 23 59 59 999)"

definition inWindow :: "int \<Rightarrow> int \<times> int \<Rightarrow> Expense \<Rightarrow> bool" where
  \<comment> \<open>\<^verbatim>\<open>and(eq(expenses.userId, userId), gte(expenses.date, startDate), lte(expenses.date, endDate))\<close>\<close>
  "inWindow uid w e = (userId e = uid \<and> fst w \<le> date e \<and> date e \<le> snd w)"

definition db_getExpensesByUserId :: "Database \<Rightarrow> int \<Rightarrow> ExpenseWithCategory list" where
  "db_getExpensesByUserId db uid = selectExpenses db (\<lambda>e. userId e = uid)"


definition db_getExpensesByUserIdAndPeriod ::
  "Database \<Rightarrow> int \<Rightarrow> string \<Rightarrow> int \<Rightarrow> error + ExpenseWithCategory list" where
  "db_getExpensesByUserIdAndPeriod db uid period dt =
     (case periodWindow period dt of
        Inl e \<Rightarrow> Inl e
      | Inr w \<Rightarrow> Inr (selectExpenses db (inWindow uid w)))"

definition db_getCategoryTotals ::
  "Database \<Rightarrow> int \<Rightarrow> int \<Rightarrow> int \<Rightarrow> error + CategoryTotal list" where
  "db_getCategoryTotals db uid year month = selectTotals db (inWindow uid (monthWindow year month))"

definition db_getCategoryTotalsByPeriod ::
  "Database \<Rightarrow> int \<Rightarrow> string \<Rightarrow> int \<Rightarrow> error + CategoryTotal list" where
  "db_getCategoryTotalsByPeriod db uid period dt =
     (case periodWindow period dt of
        Inl e \<Rightarrow> Inl e
      | Inr w \<Rightarrow> selectTotals db (inWindow uid w))"

definition tables :: "MemStorage \<Rightarrow> Database" where
  \<comment> \<open>the database that holds the records of an in-memory store\<close>
  "tables s = \<lparr>db_categories = map snd (categories s), db_expenses = map snd (expenses s)\<rparr>"

section \<open>The summary route\<close>




definition sumAmounts :: "ExpenseWithCategory list \<Rightarrow> number" where
  \<comment> \<open>\<^verbatim>\<open>expenses.reduce((sum, expense) => sum + parseFloat(expense.amount), 0)\<close>\<close>
  "sumAmounts es = foldl (\<lambda>sum expense. js_add sum (parseFloat (amount expense))) (Fin 0) es"







subsection \<open>Rounding to two decimal places in the words of the specification\<close>



section \<open>Rows for the examples\<close>

definition food :: Category where
  "food = \<lparr>cat_id = 1, name = ''Food'', icon = ''fas fa-utensils'', color = ''blue''\<rparr>"

definition transport :: Category where
  "transport = \<lparr>cat_id = 2, name = ''Transport'', icon = ''fas fa-car'', color = ''green''\<rparr>"

definition expenseOf :: "int \<Rightarrow> string \<Rightarrow> int \<Rightarrow> int \<Rightarrow> Expense" where
  \<comment> \<open>an expense of user 1: id, amount, category, date\<close>
  "expenseOf i a c d =
     \<lparr>exp_id = i, userId = 1, amount = a, categoryId = c, merchant = None, description = None,
      date = d, receiptUrl = None, e_notes = None, source = ''manual'', createdAt = d\<rparr>"

definition storeOf :: "Category list \<Rightarrow> Expense list \<Rightarrow> MemStorage" where
  \<comment> \<open>the store that holds these rows under their ids\<close>
  "storeOf cs es =
     \<lparr>users = [], categories = map (\<lambda>c. (cat_id c, c)) cs, expenses = map (\<lambda>e. (exp_id e, e)) es,
      currentUserId = 1, currentCategoryId = 1 + int (length cs),
      currentExpenseId = 1 + int (length es)\<rparr>"

definition insertOf :: "string \<Rightarrow> int \<Rightarrow> int \<Rightarrow> InsertExpense" where
  \<comment> \<open>what user 1 posts: amount, category, date\<close>
  "insertOf a c d =
     \<lparr>i_userId = 1, i_amount = a, i_categoryId = c, i_merchant = None, i_description = None,
      i_date = d, i_receiptUrl = None, i_notes = None, i_source = None\<rparr>"

definition storeAfter :: "InsertExpense list \<Rightarrow> MemStorage" where
  \<comment> \<open>the store built on 15 February 2024 (time value 1707955200000), after
      \<open>createExpense\<close> on each of the given expenses\<close>
  "storeAfter posted =
     foldl (\<lambda>s e. fst (createExpense 1707955200000 s e)) (constructor 1707955200000) posted"

section \<open>Properties of a store\<close>

definition fk_invariant :: "MemStorage \<Rightarrow> bool" where
  \<comment> \<open>the \<open>categoryId\<close> of every stored expense is the key of a stored category\<close>
  "fk_invariant s =
     list_all (\<lambda>e. map_of (categories s) (categoryId e) \<noteq> None) (map snd (expenses s))"

section \<open>Evaluating numbers\<close>

lemma floor_rat_numeral: "\<lfloor>(numeral a :: rat) / numeral b\<rfloor> = numeral a div numeral b"
  by (metis floor_divide_of_int_eq of_int_numeral)

lemma floor_rat_one: "\<lfloor>(1 :: rat) / numeral b\<rfloor> = 1 div numeral b"
  by (metis floor_divide_of_int_eq of_int_1 of_int_numeral)

lemma floor_rat_neg_numeral: "\<lfloor>- ((numeral a :: rat) / numeral b)\<rfloor> = - numeral a div numeral b"
  by (metis divide_minus_left floor_divide_of_int_eq of_int_minus of_int_numeral)

lemma ceiling_rat_numeral: "\<lceil>(numeral a :: rat) / numeral b\<rceil> = - (- numeral a div numeral b)"
  unfolding ceiling_def by (simp add: floor_rat_neg_numeral)

lemma floorlog2_numeral:
  "floorlog 2 (numeral (Num.Bit0 n)) = floorlog 2 (numeral n) + 1"
  "floorlog 2 (numeral (Num.Bit1 n)) = floorlog 2 (numeral n) + 1"
  "floorlog 2 (numeral Num.One) = 1"
  "floorlog 2 1 = 1"
  "floorlog 2 0 = 0"
  "floorlog 2 (Suc 0) = 1"
proof -
  have "numeral (Num.Bit0 n) div 2 = (numeral n :: nat)" by simp
  then show "floorlog 2 (numeral (Num.Bit0 n)) = floorlog 2 (numeral n) + 1"
    by (subst compute_floorlog) simp
  have "numeral (Num.Bit1 n) div 2 = (numeral n :: nat)" by simp
  then show "floorlog 2 (numeral (Num.Bit1 n)) = floorlog 2 (numeral n) + 1"
    by (subst compute_floorlog) simp
  show "floorlog 2 (numeral Num.One) = 1" "floorlog 2 1 = 1" "floorlog 2 0 = 0"
    "floorlog 2 (Suc 0) = 1"
    by (simp_all add: compute_floorlog)
qed

lemmas fl_eval = fl_def ilog2_def pow2_def round_half_even_def bitlen_def floorlog2_numeral
  Let_def floor_rat_numeral floor_rat_one floor_rat_neg_numeral ceiling_rat_numeral

lemmas parse_eval = parseFloat_def split_sign_def is_space_def whiteSpace2_def whiteSpace3_def
  is_digit_def digits_val_def digit_val_def pow10_def exponent_part_def


section \<open>Facts about binary64 rounding\<close>

lemma pow2_power_int: "pow2 e = power_int 2 e"
  by (simp add: pow2_def power_int_def field_simps)

lemma pow2_pos: "0 < pow2 e"
  by (simp add: pow2_power_int)

lemma pow2_mono: "a \<le> b \<Longrightarrow> pow2 a \<le> pow2 b"
  by (simp add: pow2_power_int power_int_increasing)

lemma pow2_add: "pow2 (a + b) = pow2 a * pow2 b"
  by (simp add: pow2_power_int power_int_add)

lemma pow2_nat: "0 \<le> e \<Longrightarrow> pow2 e = of_int (2 ^ nat e)"
  by (simp add: pow2_def)

lemma ilog2_lower:
  assumes "0 < q"
  shows "pow2 (ilog2 q) \<le> q"
proof (cases "1 \<le> q")
  case True
  then have f: "0 < \<lfloor>q\<rfloor>" by simp
  from bitlen_bounds [OF f] have "2 ^ nat (bitlen \<lfloor>q\<rfloor> - 1) \<le> \<lfloor>q\<rfloor>" by simp
  then have "of_int (2 ^ nat (bitlen \<lfloor>q\<rfloor> - 1)) \<le> (of_int \<lfloor>q\<rfloor> :: rat)" by (simp only: of_int_le_iff)
  also have "\<dots> \<le> q" by simp
  finally have "pow2 (bitlen \<lfloor>q\<rfloor> - 1) \<le> q"
    using f by (simp add: pow2_def bitlen_alt_def)
  then show ?thesis using True by (simp add: ilog2_def)
next
  case False
  then have q1: "q < 1" by simp
  define c where "c = \<lceil>1 / q\<rceil>"
  have "1 < 1 / q" using assms q1 by (simp add: field_simps)
  then have c2: "2 \<le> c" unfolding c_def by (simp add: le_ceiling_iff)
  then have c1: "0 < c - 1" by simp
  define k where "k = bitlen (c - 1)"
  from bitlen_bounds [OF c1] have "c - 1 < 2 ^ nat k" by (simp add: k_def)
  then have "c \<le> 2 ^ nat k" by simp
  then have "(of_int c :: rat) \<le> of_int (2 ^ nat k)" by (simp only: of_int_le_iff)
  then have "(of_int c :: rat) \<le> 2 ^ nat k" by simp
  moreover have "1 / q \<le> of_int c" unfolding c_def by (rule le_of_int_ceiling)
  ultimately have "1 / q \<le> 2 ^ nat k" by (rule order_trans [rotated])
  then have "1 / 2 ^ nat k \<le> q" using assms by (simp add: field_simps)
  moreover have "0 \<le> k" by (simp add: k_def bitlen_nonneg)
  ultimately have "pow2 (- k) \<le> q" by (auto simp: pow2_def)
  then show ?thesis using False by (simp add: ilog2_def k_def c_def)
qed

lemma round_half_even_bounds: "\<lfloor>m\<rfloor> \<le> round_half_even m" "round_half_even m \<le> \<lfloor>m\<rfloor> + 1"
  by (simp_all add: round_half_even_def Let_def)


lemma round_half_even_nonneg: "0 \<le> m \<Longrightarrow> 0 \<le> round_half_even m"
  using round_half_even_bounds(1) [of m] by (smt (verit) zero_le_floor)

lemma fl_nonzero:
  assumes "q \<noteq> 0"
  shows "fl q = (let a = \<bar>q\<bar>; e = max (ilog2 a) (- 1022); ulp = pow2 (e - 52);
                    r = of_int (round_half_even (a / ulp)) * ulp
                in if pow2 1024 \<le> r then (if 0 < q then PInf else NInf)
                   else Fin (if 0 < q then r else - r))"
  using assms by (simp add: fl_def)

lemma fl_is_double: "is_double (fl q)"
proof (cases "q = 0")
  case True
  then show ?thesis by (simp add: fl_def is_double_def)
next
  case False
  define e where "e = max (ilog2 \<bar>q\<bar>) (- 1022)"
  define n where "n = round_half_even (\<bar>q\<bar> / pow2 (e - 52))"
  have e: "0 \<le> e + 1022" by (simp add: e_def)
  have "pow2 (e - 52) * 2 ^ 1074 = pow2 (e - 52) * pow2 1074" by (simp add: pow2_def)
  also have "\<dots> = pow2 (e + 1022)" using pow2_add [of "e - 52" 1074] by (simp add: add.commute)
  also have "\<dots> = of_int (2 ^ nat (e + 1022))" using e by (rule pow2_nat)
  finally have "of_int n * pow2 (e - 52) * 2 ^ 1074 = of_int (n * 2 ^ nat (e + 1022))"
    by (simp add: mult.assoc)
  then have z: "of_int n * pow2 (e - 52) * 2 ^ 1074 \<in> \<int>" by (simp only: Ints_of_int)
  then have "- (of_int n * pow2 (e - 52)) * 2 ^ 1074 \<in> \<int>"
    by (metis Ints_minus mult_minus_left)
  with z show ?thesis
    unfolding fl_nonzero [OF False] Let_def e_def [symmetric] n_def [symmetric]
    by (simp add: is_double_def)
qed

lemma fl_sign_nonpos:
  assumes "q \<le> 0"
  shows "js_sign (fl q) \<le> 0"
proof (cases "q = 0")
  case True
  then show ?thesis by (simp add: fl_def)
next
  case False
  define e where "e = max (ilog2 \<bar>q\<bar>) (- 1022)"
  define n where "n = round_half_even (\<bar>q\<bar> / pow2 (e - 52))"
  have "0 \<le> \<bar>q\<bar> / pow2 (e - 52)" using pow2_pos [of "e - 52"] by simp
  then have "0 \<le> n" unfolding n_def by (rule round_half_even_nonneg)
  then have "0 \<le> of_int n * pow2 (e - 52)" using pow2_pos [of "e - 52"] by simp
  then show ?thesis using assms False
    unfolding fl_nonzero [OF False] Let_def e_def [symmetric] n_def [symmetric]
    by simp
qed

lemma fl_sign_pos:
  assumes "pow2 (- 1074) \<le> q"
  shows "js_sign (fl q) = 1"
proof -
  have q: "0 < q" using assms pow2_pos [of "- 1074"] by simp
  then have nz: "q \<noteq> 0" and ab: "\<bar>q\<bar> = q" by simp_all
  define e where "e = max (ilog2 q) (- 1022)"
  define n where "n = round_half_even (q / pow2 (e - 52))"
  have "pow2 (e - 52) \<le> q"
  proof (cases "ilog2 q \<le> - 1022")
    case True
    then show ?thesis using assms by (simp add: e_def max_def)
  next
    case False
    then have "e = ilog2 q" by (simp add: e_def)
    then have "pow2 (e - 52) \<le> pow2 (ilog2 q)" by (intro pow2_mono) simp
    also have "\<dots> \<le> q" using q by (rule ilog2_lower)
    finally show ?thesis .
  qed
  then have "1 \<le> q / pow2 (e - 52)" using pow2_pos [of "e - 52"] by (simp add: field_simps)
  then have "1 \<le> \<lfloor>q / pow2 (e - 52)\<rfloor>" by (simp add: le_floor_iff)
  then have "1 \<le> n" using round_half_even_bounds(1) [of "q / pow2 (e - 52)"]
    unfolding n_def by (rule order_trans)
  then have "0 < of_int n * pow2 (e - 52)" using pow2_pos [of "e - 52"] by simp
  then show ?thesis using q
    unfolding fl_nonzero [OF nz] Let_def ab e_def [symmetric] n_def [symmetric]
    by simp
qed

lemma grid_gap:
  assumes "a * 2 ^ 1074 \<in> \<int>" "b * 2 ^ 1074 \<in> \<int>" "a < b"
  shows "pow2 (- 1074) \<le> b - a"
proof -
  from assms(1,2) obtain i j :: int where i: "a * 2 ^ 1074 = of_int i" and j: "b * 2 ^ 1074 = of_int j"
    by (auto elim!: Ints_cases)
  have "a * 2 ^ 1074 < b * 2 ^ 1074" using assms(3) by simp
  then have "i < j" unfolding i j by simp
  then have "(1 :: rat) \<le> of_int (j - i)" by simp
  also have "\<dots> = (b - a) * 2 ^ 1074" using i j by (simp add: algebra_simps)
  finally show ?thesis by (simp add: pow2_def field_simps)
qed

lemma cmp_faithful:
  assumes "is_double x" "is_double y" "x \<noteq> NaN" "y \<noteq> NaN"
  shows "js_sign (js_sub y x) \<le> 0 \<longleftrightarrow> js_ge x y"
proof (cases x)
  case (Fin a)
  show ?thesis
  proof (cases y)
    case (Fin b)
    show ?thesis
    proof (cases "b \<le> a")
      case True
      then have "js_sign (fl (b - a)) \<le> 0" by (intro fl_sign_nonpos) simp
      then show ?thesis using True \<open>x = Fin a\<close> \<open>y = Fin b\<close> by (simp add: js_sub_def)
    next
      case False
      then have "a < b" by simp
      with assms(1,2) have "pow2 (- 1074) \<le> b - a"
        unfolding \<open>x = Fin a\<close> \<open>y = Fin b\<close> is_double_def by (simp add: grid_gap)
      then have "js_sign (fl (b - a)) = 1" by (rule fl_sign_pos)
      then show ?thesis using False \<open>x = Fin a\<close> \<open>y = Fin b\<close> by (simp add: js_sub_def)
    qed
  qed (use assms Fin in \<open>simp_all add: js_sub_def\<close>)
qed (use assms in \<open>cases y; simp add: js_sub_def\<close>)+


section \<open>Facts about rows\<close>

lemma spreadCategory_sel [simp]:
  "exp_id (spreadCategory e c) = exp_id e"
  "userId (spreadCategory e c) = userId e"
  "amount (spreadCategory e c) = amount e"
  "categoryId (spreadCategory e c) = categoryId e"
  "date (spreadCategory e c) = date e"
  "category (spreadCategory e c) = c"
  by (simp_all add: spreadCategory_def)

lemma withCategory_sel [simp]:
  "exp_id (withCategory s e) = exp_id e"
  "userId (withCategory s e) = userId e"
  "amount (withCategory s e) = amount e"
  "categoryId (withCategory s e) = categoryId e"
  "date (withCategory s e) = date e"
  "category (withCategory s e) = map_of (categories s) (categoryId e)"
  by (simp_all add: withCategory_def)

lemma expenseOf_sel [simp]:
  "exp_id (expenseOf i a c d) = i"
  "userId (expenseOf i a c d) = 1"
  "amount (expenseOf i a c d) = a"
  "categoryId (expenseOf i a c d) = c"
  "date (expenseOf i a c d) = d"
  by (simp_all add: expenseOf_def)

lemma storeOf_sel [simp]:
  "categories (storeOf cs es) = map (\<lambda>c. (cat_id c, c)) cs"
  "expenses (storeOf cs es) = map (\<lambda>e. (exp_id e, e)) es"
  "users (storeOf cs es) = []"
  by (simp_all add: storeOf_def)

lemma tables_storeOf [simp]: "tables (storeOf cs es) = \<lparr>db_categories = cs, db_expenses = es\<rparr>"
  by (simp add: tables_def comp_def)

lemma food_sel [simp]: "cat_id food = 1" "cat_id transport = 2"
  by (simp_all add: food_def transport_def)

section \<open>Facts about the calendar\<close>

lemma div_succ:
  fixes x n :: int
  assumes "0 < n"
  shows "(x + 1) div n = x div n + (if n dvd x + 1 then 1 else 0)"
proof (cases "x mod n = n - 1")
  case True
  have "x + 1 = n * (x div n) + (x mod n + 1)" by simp
  also have "x mod n + 1 = n" using True by simp
  finally have "x + 1 = n * (x div n) + n" .
  then have e: "x + 1 = n * (x div n + 1)" by (simp only: distrib_left mult_1_right)
  then have "n dvd x + 1" by simp
  moreover have "(x + 1) div n = x div n + 1"
    unfolding e using assms by simp
  ultimately show ?thesis by simp
next
  case False
  have b: "0 \<le> x mod n" "x mod n < n" using assms by simp_all
  have e: "x + 1 = n * (x div n) + (x mod n + 1)" by simp
  have "(x + 1) div n = x div n"
    by (rule int_div_pos_eq [OF e]) (use b False in auto)
  moreover have "(x + 1) mod n = x mod n + 1"
    by (rule int_mod_pos_eq [OF e]) (use b False in auto)
  ultimately show ?thesis using b by (simp add: dvd_eq_mod_eq_0)
qed

lemma step4: "(y + 1 - 1969) div 4 = (y - 1969) div 4 + (if y mod 4 = 0 then 1 else 0)" for y :: int
proof -
  have "(4::int) dvd y - 1968 \<longleftrightarrow> 4 dvd y" by (rule dvd_diff_left_iff) simp
  then show ?thesis using div_succ [of 4 "y - 1969"] by (simp add: dvd_eq_mod_eq_0)
qed

lemma step100: "(y + 1 - 1901) div 100 = (y - 1901) div 100 + (if y mod 100 = 0 then 1 else 0)" for y :: int
proof -
  have "(100::int) dvd y - 1900 \<longleftrightarrow> 100 dvd y" by (rule dvd_diff_left_iff) simp
  then show ?thesis using div_succ [of 100 "y - 1901"] by (simp add: dvd_eq_mod_eq_0)
qed

lemma step400: "(y + 1 - 1601) div 400 = (y - 1601) div 400 + (if y mod 400 = 0 then 1 else 0)" for y :: int
proof -
  have "(400::int) dvd y - 1600 \<longleftrightarrow> 400 dvd y" by (rule dvd_diff_left_iff) simp
  then show ?thesis using div_succ [of 400 "y - 1601"] by (simp add: dvd_eq_mod_eq_0)
qed

lemma mod100_mod4: "y mod 100 = 0 \<Longrightarrow> y mod 4 = 0" for y :: int
proof -
  assume "y mod 100 = 0"
  then have "100 dvd y" by (simp add: dvd_eq_mod_eq_0)
  moreover have "(4::int) dvd 100" by simp
  ultimately have "4 dvd y" by (rule dvd_trans [rotated])
  then show ?thesis by (simp add: dvd_eq_mod_eq_0)
qed

lemma mod400_mod100: "y mod 400 = 0 \<Longrightarrow> y mod 100 = 0" for y :: int
proof -
  assume "y mod 400 = 0"
  then have "400 dvd y" by (simp add: dvd_eq_mod_eq_0)
  moreover have "(100::int) dvd 400" by simp
  ultimately have "100 dvd y" by (rule dvd_trans [rotated])
  then show ?thesis by (simp add: dvd_eq_mod_eq_0)
qed

lemma DayFromYear_step: "DayFromYear (y + 1) = DayFromYear y + DaysInYear y"
  unfolding DayFromYear_def DaysInYear_def step4 step100 step400
  using mod100_mod4 [of y] mod400_mod100 [of y] by auto

lemma DaysInYear_cases: "DaysInYear y = 365 \<or> DaysInYear y = 366"
  by (simp add: DaysInYear_def)

lemma DayFromYear_less: "DayFromYear y < DayFromYear (y + 1)"
  using DaysInYear_cases [of y] by (auto simp: DayFromYear_step)

lemma DayFromYear_mono_aux: "0 \<le> k \<Longrightarrow> DayFromYear y \<le> DayFromYear (y + k)"
proof (induction k rule: int_ge_induct)
  case base
  then show ?case by simp
next
  case (step i)
  have "DayFromYear (y + i) < DayFromYear (y + i + 1)" by (rule DayFromYear_less)
  with step show ?case by (simp add: add.assoc)
qed

lemma DayFromYear_mono: "y \<le> z \<Longrightarrow> DayFromYear y \<le> DayFromYear z"
  using DayFromYear_mono_aux [of "z - y" y] by simp

lemma DayFromYear_strict: "y < z \<Longrightarrow> DayFromYear y < DayFromYear z"
  using DayFromYear_mono [of "y + 1" z] DayFromYear_less [of y] by simp

lemma div_bounds:
  fixes x k :: int
  assumes "0 < k"
  shows "k * (x div k) \<le> x" and "x < k * (x div k) + k"
proof -
  have "x = k * (x div k) + x mod k" by simp
  moreover have "0 \<le> x mod k" "x mod k < k" using assms by simp_all
  ultimately show "k * (x div k) \<le> x" and "x < k * (x div k) + k" by linarith+
qed

lemma year_lower_arith: fixes n a b c d :: int
  assumes "146097 * n \<le> 400 * d" "4 * a \<le> n" "n + 68 < 100 * b + 100" "400 * c \<le> n + 368"
  shows "365 * (n - 1) + a - b + c \<le> d"
proof -
  have 1: "400 * a \<le> 100 * n" using assms(2) by simp
  have 2: "4 * n + 272 < 400 * b + 400" using assms(3) by simp
  have "400 * (365 * (n - 1) + a - b + c) \<le> 146097 * n" using 1 2 assms(4) by simp
  then have "400 * (365 * (n - 1) + a - b + c) \<le> 400 * d" using assms(1) by simp
  then show ?thesis by simp
qed
lemma year_upper_arith: fixes n a b c d :: int
  assumes "400 * d < 146097 * n + 146097" "n + 3 < 4 * a + 4" "100 * b \<le> n + 71" "n + 371 < 400 * c + 400"
  shows "d < 365 * (n + 2) + a - b + c"
proof -
  have 1: "100 * n + 300 < 400 * a + 400" using assms(2) by simp
  have 2: "400 * b \<le> 4 * n + 284" using assms(3) by simp
  have "146097 * n + 146097 \<le> 400 * (365 * (n + 2) + a - b + c)" using 1 2 assms(4) by simp
  then have "400 * d < 400 * (365 * (n + 2) + a - b + c)" using assms(1) by simp
  then show ?thesis by simp
qed

lemma YearFromDay_lower: "DayFromYear (1970 + (400 * d) div 146097 - 1) \<le> d"
proof -
  define n where "n = (400 * d) div 146097"
  define a where "a = n div 4"
  define b where "b = (n + 68) div 100"
  define c where "c = (n + 368) div 400"
  have q: "146097 * n \<le> 400 * d" unfolding n_def by (rule div_bounds) simp
  have a: "4 * a \<le> n" unfolding a_def by (rule div_bounds) simp
  have b: "n + 68 < 100 * b + 100" unfolding b_def by (rule div_bounds) simp
  have c: "400 * c \<le> n + 368" unfolding c_def by (rule div_bounds) simp
  have "DayFromYear (1970 + n - 1) = 365 * (n - 1) + a - b + c"
    by (simp add: DayFromYear_def a_def b_def c_def algebra_simps)
  moreover have "365 * (n - 1) + a - b + c \<le> d" using q a b c by (rule year_lower_arith)
  ultimately show ?thesis unfolding n_def by simp
qed

lemma YearFromDay_upper: "d < DayFromYear (1970 + (400 * d) div 146097 + 2)"
proof -
  define n where "n = (400 * d) div 146097"
  define a where "a = (n + 3) div 4"
  define b where "b = (n + 71) div 100"
  define c where "c = (n + 371) div 400"
  have q: "400 * d < 146097 * n + 146097" unfolding n_def by (rule div_bounds) simp
  have a: "n + 3 < 4 * a + 4" unfolding a_def by (rule div_bounds) simp
  have b: "100 * b \<le> n + 71" unfolding b_def by (rule div_bounds) simp
  have c: "n + 371 < 400 * c + 400" unfolding c_def by (rule div_bounds) simp
  have "DayFromYear (1970 + n + 2) = 365 * (n + 2) + a - b + c"
    by (simp add: DayFromYear_def a_def b_def c_def algebra_simps)
  moreover have "d < 365 * (n + 2) + a - b + c" using q a b c by (rule year_upper_arith)
  ultimately show ?thesis unfolding n_def by simp
qed

lemma YearFromDay_bounds:
  "DayFromYear (YearFromDay d) \<le> d" "d < DayFromYear (YearFromDay d + 1)"
  using YearFromDay_lower [of d] YearFromDay_upper [of d]
  by (auto simp: YearFromDay_def Let_def add.assoc)

lemma YearFromDay_unique:
  assumes "DayFromYear y \<le> d" and "d < DayFromYear (y + 1)"
  shows "YearFromDay d = y"
proof (rule ccontr)
  assume neq: "YearFromDay d \<noteq> y"
  show False
  proof (cases "YearFromDay d < y")
    case True
    then have "DayFromYear (YearFromDay d + 1) \<le> DayFromYear y" by (intro DayFromYear_mono) simp
    with assms YearFromDay_bounds [of d] show False by linarith
  next
    case False
    with neq have "y + 1 \<le> YearFromDay d" by simp
    then have "DayFromYear (y + 1) \<le> DayFromYear (YearFromDay d)" by (rule DayFromYear_mono)
    with assms YearFromDay_bounds [of d] show False by linarith
  qed
qed


lemma Day_MakeDate: "0 \<le> tm \<Longrightarrow> tm < msPerDay \<Longrightarrow> Day (MakeDate d tm) = d"
  unfolding Day_def MakeDate_def msPerDay_def
  by (rule int_div_pos_eq [of _ _ _ tm]) auto

lemma TimeWithinDay_MakeDate: "0 \<le> tm \<Longrightarrow> tm < msPerDay \<Longrightarrow> TimeWithinDay (MakeDate d tm) = tm"
  unfolding TimeWithinDay_def MakeDate_def msPerDay_def
  by (rule int_mod_pos_eq [of _ _ d]) auto

lemma TimeWithinDay_bounds: "0 \<le> TimeWithinDay t" "TimeWithinDay t < msPerDay"
  by (simp_all add: TimeWithinDay_def msPerDay_def)

lemma MakeDate_Day: "MakeDate (Day t) (TimeWithinDay t) = t"
  by (simp add: MakeDate_def Day_def TimeWithinDay_def)

lemma Day_le_iff: "d * msPerDay \<le> t \<longleftrightarrow> d \<le> Day t"
proof
  assume "d * msPerDay \<le> t"
  then have "(d * msPerDay) div msPerDay \<le> t div msPerDay"
    by (rule zdiv_mono1) (simp add: msPerDay_def)
  then show "d \<le> Day t" by (simp add: Day_def msPerDay_def)
next
  assume "d \<le> Day t"
  then have "d * msPerDay \<le> Day t * msPerDay" by (simp add: msPerDay_def)
  also have "\<dots> \<le> t" using MakeDate_Day [of t] TimeWithinDay_bounds(1) [of t]
    by (simp add: MakeDate_def)
  finally show "d * msPerDay \<le> t" .
qed

lemma Day_less_iff: "t < d * msPerDay \<longleftrightarrow> Day t < d"
  using Day_le_iff [of d t] by auto

lemma MonthFromTime_range: "0 \<le> MonthFromTime t" "MonthFromTime t \<le> 11"
  by (simp_all add: MonthFromTime_def Let_def)

lemma month_cases:
  fixes m :: int
  assumes "0 \<le> m" "m \<le> 11"
  shows "m = 0 \<or> m = 1 \<or> m = 2 \<or> m = 3 \<or> m = 4 \<or> m = 5 \<or> m = 6 \<or> m = 7 \<or> m = 8
         \<or> m = 9 \<or> m = 10 \<or> m = 11"
  using assms by presburger

lemma DateFromTime_eq:
  "DateFromTime t = DayWithinYear t + 1 - DaysBeforeMonth (MonthFromTime t) (InLeapYear t)"
  using month_cases [OF MonthFromTime_range [of t]]
  by (elim disjE) (simp_all add: DateFromTime_def DaysBeforeMonth_def Let_def)

lemma MakeDay_civil: "MakeDay (YearFromTime t) (MonthFromTime t) (DateFromTime t + k) = Day t + k"
proof -
  have m: "MonthFromTime t div 12 = 0" "MonthFromTime t mod 12 = MonthFromTime t"
    using MonthFromTime_range [of t] by simp_all
  show ?thesis
    by (simp add: MakeDay_def m DateFromTime_eq InLeapYear_def DayWithinYear_def Let_def)
qed


lemma DayWithinYear_bounds: "0 \<le> DayWithinYear t" "DayWithinYear t < DaysInYear (YearFromTime t)"
  using YearFromDay_bounds [of "Day t"] DayFromYear_step [of "YearFromDay (Day t)"]
  by (simp_all add: DayWithinYear_def YearFromTime_def)

lemma month_table:
  fixes m l dt d :: int
  assumes "0 \<le> m" "m \<le> 11" "l = 0 \<or> l = 1" "1 \<le> dt"
    and "dt \<le> (if m = 1 then 28 + l else if m = 3 \<or> m = 5 \<or> m = 8 \<or> m = 10 then 30 else 31)"
    and "d = DaysBeforeMonth m l + dt - 1"
  shows "0 \<le> d" "d < 365 + l"
    and "(if d < 31 then 0 else if d < 59 + l then 1 else if d < 90 + l then 2
          else if d < 120 + l then 3 else if d < 151 + l then 4 else if d < 181 + l then 5
          else if d < 212 + l then 6 else if d < 243 + l then 7 else if d < 273 + l then 8
          else if d < 304 + l then 9 else if d < 334 + l then 10 else 11) = m"
  using month_cases [OF assms(1,2)] assms(3-)
  by (elim disjE; simp add: DaysBeforeMonth_def; linarith)+


lemma DaysInYear_leap: "DaysInYear y = 365 + (if DaysInYear y = 366 then 1 else 0)"
  using DaysInYear_cases [of y] by auto

lemma MakeDay_in_range: "0 \<le> m \<Longrightarrow> m \<le> 11 \<Longrightarrow>
  MakeDay y m dt = DayFromYear y + DaysBeforeMonth m (if DaysInYear y = 366 then 1 else 0) + dt - 1"
  by (simp add: MakeDay_def Let_def)

lemma civil_of_MakeDay:
  assumes m: "0 \<le> m" "m \<le> 11" and dt: "1 \<le> dt" "dt \<le> daysInMonth y m"
    and t: "Day t = MakeDay y m dt"
  shows "YearFromTime t = y" "MonthFromTime t = m" "DateFromTime t = dt"
proof -
  define l :: int where "l = (if DaysInYear y = 366 then 1 else 0)"
  define d where "d = DaysBeforeMonth m l + dt - 1"
  have l: "l = 0 \<or> l = 1" by (simp add: l_def)
  have dt': "dt \<le> (if m = 1 then 28 + l else if m = 3 \<or> m = 5 \<or> m = 8 \<or> m = 10 then 30 else 31)"
    using dt(2) by (auto simp: daysInMonth_def l_def split: if_splits)
  note tab = month_table [OF m l dt(1) dt' d_def]
  have day: "Day t = DayFromYear y + d"
    using t by (simp add: MakeDay_in_range [OF m] l_def d_def)
  have "DaysInYear y = 365 + l" using DaysInYear_leap [of y] by (simp add: l_def)
  then have "Day t < DayFromYear (y + 1)" using tab(2) day by (simp add: DayFromYear_step)
  moreover have "DayFromYear y \<le> Day t" using tab(1) day by simp
  ultimately show y: "YearFromTime t = y"
    unfolding YearFromTime_def by (intro YearFromDay_unique)
  have dwy: "DayWithinYear t = d" by (simp add: DayWithinYear_def y day)
  have leap: "InLeapYear t = l" by (simp add: InLeapYear_def y l_def)
  show mt: "MonthFromTime t = m"
    unfolding MonthFromTime_def dwy leap Let_def by (rule tab(3))
  show "DateFromTime t = dt"
    by (simp add: DateFromTime_eq dwy leap mt d_def)
qed

lemma MakeDay_next_month:
  assumes "0 \<le> m" "m \<le> 11"
  shows "MakeDay y (m + 1) 1 = MakeDay y m 1 + daysInMonth y m"
proof (cases "m = 11")
  case True
  have "MakeDay y 12 1 = DayFromYear (y + 1)" by (simp add: MakeDay_def DaysBeforeMonth_def)
  moreover have "MakeDay y 11 1 + daysInMonth y 11 = DayFromYear y + DaysInYear y"
    using DaysInYear_cases [of y]
    by (auto simp: MakeDay_def DaysBeforeMonth_def daysInMonth_def)
  ultimately show ?thesis using True by (simp add: DayFromYear_step)
next
  case False
  with assms have "0 \<le> m + 1" "m + 1 \<le> 11" by simp_all
  note a = MakeDay_in_range [OF this] MakeDay_in_range [OF assms]
  from False assms have "m = 0 \<or> m = 1 \<or> m = 2 \<or> m = 3 \<or> m = 4 \<or> m = 5 \<or> m = 6 \<or> m = 7 \<or> m = 8
         \<or> m = 9 \<or> m = 10" by presburger
  then show ?thesis unfolding a
    by (elim disjE) (simp_all add: DaysBeforeMonth_def daysInMonth_def)
qed

lemma daysInMonth_pos: "1 \<le> daysInMonth y m"
  by (simp add: daysInMonth_def)

lemma DateFromTime_bounds: "1 \<le> DateFromTime t" "DateFromTime t \<le> daysInMonth (YearFromTime t) (MonthFromTime t)"
proof -
  define l where "l = InLeapYear t"
  define d where "d = DayWithinYear t"
  have l: "l = 0 \<or> l = 1" by (simp add: l_def InLeapYear_def)
  have d: "0 \<le> d" "d < 365 + l"
    using DayWithinYear_bounds [of t] DaysInYear_leap [of "YearFromTime t"]
    by (simp_all add: d_def l_def InLeapYear_def)
  have dim: "daysInMonth (YearFromTime t) (MonthFromTime t)
      = (if MonthFromTime t = 1 then 28 + l
         else if MonthFromTime t = 3 \<or> MonthFromTime t = 5 \<or> MonthFromTime t = 8 \<or> MonthFromTime t = 10 then 30 else 31)"
    by (simp add: daysInMonth_def l_def InLeapYear_def)
  have mt: "MonthFromTime t = (if d < 31 then 0 else if d < 59 + l then 1 else if d < 90 + l then 2
          else if d < 120 + l then 3 else if d < 151 + l then 4 else if d < 181 + l then 5
          else if d < 212 + l then 6 else if d < 243 + l then 7 else if d < 273 + l then 8
          else if d < 304 + l then 9 else if d < 334 + l then 10 else 11)"
    by (simp add: MonthFromTime_def Let_def d_def l_def)
  have e: "DateFromTime t = d + 1 - DaysBeforeMonth (MonthFromTime t) l"
    by (simp add: DateFromTime_eq d_def l_def)
  show "1 \<le> DateFromTime t"
    unfolding e using d l unfolding mt
    by (simp add: DaysBeforeMonth_def)
  show "DateFromTime t \<le> daysInMonth (YearFromTime t) (MonthFromTime t)"
    unfolding e dim using d l unfolding mt
    by (simp add: DaysBeforeMonth_def)
qed


section \<open>Unknown period units\<close>

text \<open>
  Claim C2. A period unit other than day, week, month and year is to be rejected as an
  invalid argument, and never answered with an empty result. DatabaseStorage throws;
  MemStorage falls into the \<^verbatim>\<open>default\<close> branch of its filter, which drops every expense:
  for the unit \<^verbatim>\<open>decade\<close> it returns the empty list, and the empty list of totals,
  whatever the store holds.
\<close>

theorem C2_mem_unknown_period_is_empty:
  "getExpensesByUserIdAndPeriod s uid ''decade'' dt = []
   \<and> getCategoryTotalsByPeriod s uid ''decade'' dt = Inr []
   \<and> db_getExpensesByUserIdAndPeriod db uid ''decade'' dt = Inl (InvalidPeriod ''decade'')
   \<and> db_getCategoryTotalsByPeriod db uid ''decade'' dt = Inl (InvalidPeriod ''decade'')"
  by (simp add: getExpensesByUserIdAndPeriod_def getCategoryTotalsByPeriod_def inPeriod_def
      categoryTotalsOf_def js_sort_def db_getExpensesByUserIdAndPeriod_def
      db_getCategoryTotalsByPeriod_def periodWindow_def)


section \<open>The foreign key of an expense\<close>

lemmas store_eval = constructor_def initializeDefaultCategories_def defaultCategories_def
  initializeSampleData_def sampleExpenses_def createCategory_def Let_def

lemma categories_constructor:
  "map fst (categories (constructor now)) = [1, 2, 3, 4, 5, 6, 7, 8]"
  by (simp add: store_eval)

lemma expenses_constructor:
  "map (\<lambda>(k, e). (k, exp_id e, categoryId e)) (expenses (constructor now))
     = [(1, 1, 1), (2, 2, 1), (3, 3, 2), (4, 4, 3), (5, 5, 8), (6, 6, 4)]"
  by (simp add: store_eval)

text \<open>
  Claim C3. Every expense refers to an existing category, initially and after every
  operation. The store that the constructor builds has the property. \<open>createExpense\<close>
  and \<open>updateExpense\<close> store the \<open>categoryId\<close> they are given without looking it up:
  with the id 99 each of them leaves an expense without a category, although
  \<open>getExpensesByUserId\<close> asserts (\<^verbatim>\<open>!\<close>) that the lookup succeeds.
\<close>

theorem C3_createExpense_breaks_foreign_key:
  "fk_invariant (constructor now)
   \<and> \<not> fk_invariant (fst (createExpense now (constructor now)
          \<lparr>i_userId = 1, i_amount = ''1.00'', i_categoryId = 99, i_merchant = None,
           i_description = None, i_date = now, i_receiptUrl = None, i_notes = None,
           i_source = None\<rparr>))
   \<and> \<not> fk_invariant (fst (updateExpense (constructor now) 1
          \<lparr>u_userId = None, u_amount = None, u_categoryId = Some 99, u_merchant = None,
           u_description = None, u_date = None, u_receiptUrl = None, u_notes = None,
           u_source = None\<rparr>))"
  by (simp add: fk_invariant_def store_eval createExpense_def updateExpense_def spread_def or_null_def)


section \<open>What updateExpense and deleteExpense leave alone\<close>

lemma update_other_entries:
  "filter (\<lambda>kv. fst kv \<noteq> k) (AList.update k v al) = filter (\<lambda>kv. fst kv \<noteq> k) al"
  by (induction al) auto

text \<open>
  Claim C10. \<open>updateExpense\<close> changes no expense stored under another id, no category
  and no user. When no expense has the id, it returns \<^verbatim>\<open>undefined\<close> and \<open>deleteExpense\<close>
  returns \<^verbatim>\<open>false\<close>, and the store is the one before.
\<close>

theorem C10_updateExpense_frame:
  "(\<forall>j. j \<noteq> eid \<longrightarrow>
        map_of (expenses (fst (updateExpense s eid p))) j = map_of (expenses s) j)
   \<and> filter (\<lambda>kv. fst kv \<noteq> eid) (expenses (fst (updateExpense s eid p)))
       = filter (\<lambda>kv. fst kv \<noteq> eid) (expenses s)
   \<and> categories (fst (updateExpense s eid p)) = categories s
   \<and> users (fst (updateExpense s eid p)) = users s
   \<and> (map_of (expenses s) eid = None \<longrightarrow>
        updateExpense s eid p = (s, None) \<and> deleteExpense s eid = (s, False))"
proof (cases "map_of (expenses s) eid")
  case None
  then have "eid \<notin> fst ` set (expenses s)" by (simp add: map_of_eq_None_iff)
  then have "AList.delete eid (expenses s) = expenses s" by (simp add: AList.delete_id)
  then show ?thesis using None \<open>eid \<notin> fst ` set (expenses s)\<close>
    by (simp add: updateExpense_def deleteExpense_def)
next
  case (Some e)
  then show ?thesis
    by (simp add: updateExpense_def Let_def update_conv' update_other_entries)
qed


theorem C10_updateExpense_frame_witness:
  "map_of (expenses (constructor 0)) 99 = None
   \<and> updateExpense (constructor 0) 99
        \<lparr>u_userId = None, u_amount = Some ''2.00'', u_categoryId = None, u_merchant = None,
         u_description = None, u_date = None, u_receiptUrl = None, u_notes = None,
         u_source = None\<rparr> = (constructor 0, None)
   \<and> deleteExpense (constructor 0) 99 = (constructor 0, False)
   \<and> (2::int) \<noteq> 1
   \<and> map_of (expenses (fst (updateExpense (constructor 0) 1
        \<lparr>u_userId = None, u_amount = Some ''2.00'', u_categoryId = None, u_merchant = None,
         u_description = None, u_date = None, u_receiptUrl = None, u_notes = None,
         u_source = None\<rparr>))) 2 = map_of (expenses (constructor 0)) 2"
proof -
  let ?p = "\<lparr>u_userId = None, u_amount = Some ''2.00'', u_categoryId = None, u_merchant = None,
         u_description = None, u_date = None, u_receiptUrl = None, u_notes = None,
         u_source = None\<rparr>"
  have h: "map_of (expenses (constructor 0)) 99 = None" by (simp add: store_eval)
  have n: "(2::int) \<noteq> 1" by simp
  from C10_updateExpense_frame [of 99 "constructor 0" ?p] h
  have a: "updateExpense (constructor 0) 99 ?p = (constructor 0, None)
           \<and> deleteExpense (constructor 0) 99 = (constructor 0, False)" by blast
  from C10_updateExpense_frame [of 1 "constructor 0" ?p] n
  have b: "map_of (expenses (fst (updateExpense (constructor 0) 1 ?p))) 2
           = map_of (expenses (constructor 0)) 2" by blast
  from h a n b show ?thesis by blast
qed



section \<open>The week\<close>

lemma setDate_shift: "setDate t (getDate t + k) = MakeDate (Day t + k) (TimeWithinDay t)"
  by (simp add: setDate_def getDate_def MakeDay_civil)

lemma MakeTime_bounds:
  "0 \<le> MakeTime 0 0 0 0" "MakeTime 0 0 0 0 < msPerDay"
  "0 \<le> MakeTime 23 59 59 999" "MakeTime 23 59 59 999 < msPerDay"
  by (simp_all add: MakeTime_def msPerDay_def)

lemma Day_setDate: "Day (setDate t (getDate t + k)) = Day t + k"
  by (simp add: setDate_shift Day_MakeDate TimeWithinDay_bounds)

lemma weekStart_eq:
  "setHours (setDate t (getDate t - getDay t)) 0 0 0 0 = MakeDate (Day t - WeekDay t) 0"
  using Day_setDate [of t "- getDay t"]
  by (simp add: setHours_def getDay_def MakeTime_def)

lemma weekEnd_eq:
  "setHours (setDate (MakeDate d 0) (getDate (MakeDate d 0) + 6)) 23 59 59 999
     = MakeDate (d + 6) (MakeTime 23 59 59 999)"
proof -
  have "Day (MakeDate d 0) = d" by (rule Day_MakeDate) (simp_all add: msPerDay_def)
  then show ?thesis using Day_setDate [of "MakeDate d 0" 6] by (simp add: setHours_def)
qed

lemma periodWindow_week:
  "periodWindow ''week'' t
     = Inr (MakeDate (Day t - WeekDay t) 0, MakeDate (Day t - WeekDay t + 6) (MakeTime 23 59 59 999))"
  by (simp add: periodWindow_def Let_def weekStart_eq weekEnd_eq)

lemma inPeriod_week:
  "inPeriod ''week'' r t
     \<longleftrightarrow> MakeDate (Day r - WeekDay r) 0 \<le> t
         \<and> t \<le> MakeDate (Day r - WeekDay r + 6) (MakeTime 23 59 59 999)"
  by (simp add: inPeriod_def Let_def weekStart_eq weekEnd_eq)

lemma WeekDay_bounds: "0 \<le> WeekDay t" "WeekDay t \<le> 6"
  by (simp_all add: WeekDay_def)

lemma WeekDay_sunday: "WeekDay (MakeDate (Day t - WeekDay t) 0) = 0"
proof -
  have "Day (MakeDate (Day t - WeekDay t) 0) = Day t - WeekDay t"
    by (rule Day_MakeDate) (simp_all add: msPerDay_def)
  moreover have "(Day t - (Day t + 4) mod 7 + 4) mod 7 = 0"
    by (metis add.commute add_diff_eq diff_add_cancel minus_mod_eq_mult_div mod_mult_self1_is_0 mult.commute add_diff_cancel_left' minus_mod_self2 mod_self diff_self)
  ultimately show ?thesis by (simp add: WeekDay_def)
qed



text \<open>
  Claim C6. For every reference date the week window starts on the most recent Sunday
  at or before it, at 00:00:00.000 (a Sunday at midnight, not after the reference and
  less than seven days before it), and ends six days later at 23:59:59.999; on a Sunday
  the window starts that same day. The filter of MemStorage keeps the dates of that
  window.
\<close>

theorem C6_week_window:
  "\<exists>s e. periodWindow ''week'' ref = Inr (s, e)
     \<and> getDay s = 0 \<and> TimeWithinDay s = MakeTime 0 0 0 0
     \<and> s \<le> ref \<and> ref < s + 7 * msPerDay
     \<and> e = s + 6 * msPerDay + MakeTime 23 59 59 999
     \<and> Day e = Day s + 6 \<and> TimeWithinDay e = MakeTime 23 59 59 999
     \<and> (getDay ref = 0 \<longrightarrow> Day s = Day ref)
     \<and> (\<forall>t. inPeriod ''week'' ref t \<longleftrightarrow> s \<le> t \<and> t \<le> e)"
proof -
  define d where "d = Day ref - WeekDay ref"
  define s where "s = MakeDate d 0"
  define e where "e = MakeDate (d + 6) (MakeTime 23 59 59 999)"
  have w: "periodWindow ''week'' ref = Inr (s, e)"
    by (simp add: periodWindow_week s_def e_def d_def)
  have ds: "Day s = d" unfolding s_def by (rule Day_MakeDate) (simp_all add: msPerDay_def)
  have sun: "getDay s = 0" unfolding getDay_def s_def d_def by (rule WeekDay_sunday)
  have ts: "TimeWithinDay s = MakeTime 0 0 0 0"
    unfolding s_def by (simp add: MakeTime_def TimeWithinDay_MakeDate msPerDay_def)
  have "d \<le> Day ref" using WeekDay_bounds [of ref] by (simp add: d_def)
  then have le: "s \<le> ref" using Day_le_iff [of d ref] by (simp add: s_def MakeDate_def)
  have "Day ref < d + 7" using WeekDay_bounds [of ref] by (simp add: d_def)
  then have "ref < (d + 7) * msPerDay" by (simp add: Day_less_iff)
  then have lt: "ref < s + 7 * msPerDay" by (simp add: s_def MakeDate_def algebra_simps)
  have ee: "e = s + 6 * msPerDay + MakeTime 23 59 59 999"
    by (simp add: e_def s_def MakeDate_def algebra_simps)
  have de: "Day e = Day s + 6" unfolding e_def ds
    by (rule Day_MakeDate) (rule MakeTime_bounds)+
  have te: "TimeWithinDay e = MakeTime 23 59 59 999" unfolding e_def
    by (rule TimeWithinDay_MakeDate) (rule MakeTime_bounds)+
  have same: "getDay ref = 0 \<longrightarrow> Day s = Day ref" by (simp add: ds d_def getDay_def)
  have filt: "\<forall>t. inPeriod ''week'' ref t \<longleftrightarrow> s \<le> t \<and> t \<le> e"
    by (simp add: inPeriod_week s_def e_def d_def)
  from w sun ts le lt ee de te same filt show ?thesis by blast
qed

theorem C6_week_window_witness:
  "getDay 1708250000000 = 0
   \<and> periodWindow ''week'' 1708250000000 = Inr (1708214400000, 1708819199999)
   \<and> Day 1708214400000 = Day 1708250000000"
proof -
  have h: "getDay 1708250000000 = 0"
    by (simp add: getDay_def WeekDay_def Day_def msPerDay_def)
  have w: "periodWindow ''week'' 1708250000000 = Inr (1708214400000, 1708819199999)"
    by (simp add: periodWindow_week WeekDay_def Day_def msPerDay_def MakeDate_def MakeTime_def)
  from C6_week_window [of 1708250000000] obtain s e
    where "periodWindow ''week'' 1708250000000 = Inr (s, e)"
      and "getDay 1708250000000 = 0 \<longrightarrow> Day s = Day 1708250000000" by blast
  with h w show ?thesis by simp
qed



section \<open>The change in percent\<close>


lemma periodWindow_day:
  "periodWindow ''day'' t = Inr (MakeDate (Day t) (MakeTime 0 0 0 0), MakeDate (Day t) (MakeTime 23 59 59 999))"
  by (simp add: periodWindow_def setHours_def)


lemmas time_eval = Day_def TimeWithinDay_def MakeDate_def MakeTime_def msPerDay_def





lemma js_gt_zero_iff: "js_gt x (Fin 0) \<longleftrightarrow> x = PInf \<or> (\<exists>a. x = Fin a \<and> 0 < a)"
  by (cases x) auto



















section \<open>The month\<close>

lemma MakeDay_add: "MakeDay y m (d + k) = MakeDay y m d + k"
  by (simp add: MakeDay_def Let_def)

lemma MakeDay_last: "0 \<le> m \<Longrightarrow> m \<le> 11 \<Longrightarrow> MakeDay y (m + 1) 0 = MakeDay y m (daysInMonth y m)"
proof -
  assume m: "0 \<le> m" "m \<le> 11"
  have "MakeDay y (m + 1) 0 = MakeDay y (m + 1) 1 - 1" using MakeDay_add [of y "m + 1" 1 "- 1"] by simp
  also have "\<dots> = MakeDay y m 1 + daysInMonth y m - 1" by (simp add: MakeDay_next_month [OF m])
  also have "\<dots> = MakeDay y m (daysInMonth y m)" using MakeDay_add [of y m 1 "daysInMonth y m - 1"] by simp
  finally show ?thesis .
qed

lemma civil_getters:
  assumes "0 \<le> m" "m \<le> 11" "1 \<le> dt" "dt \<le> daysInMonth y m" "Day t = MakeDay y m dt"
  shows "getFullYear t = y \<and> getMonth t = m \<and> getDate t = dt"
  using civil_of_MakeDay [OF assms] by (simp add: getFullYear_def getMonth_def getDate_def)

lemma in_month_iff:
  assumes m: "0 \<le> m" "m \<le> 11"
  shows "getFullYear t = y \<and> getMonth t = m
         \<longleftrightarrow> MakeDay y m 1 \<le> Day t \<and> Day t \<le> MakeDay y m (daysInMonth y m)"
proof
  assume a: "getFullYear t = y \<and> getMonth t = m"
  then have ym: "YearFromTime t = y" "MonthFromTime t = m"
    by (simp_all add: getFullYear_def getMonth_def)
  have "Day t = MakeDay y m (DateFromTime t)" using MakeDay_civil [of t 0] by (simp add: ym)
  moreover have "MakeDay y m (DateFromTime t) = MakeDay y m 1 + (DateFromTime t - 1)"
    using MakeDay_add [of y m 1 "DateFromTime t - 1"] by simp
  moreover have "MakeDay y m (daysInMonth y m) = MakeDay y m 1 + (daysInMonth y m - 1)"
    using MakeDay_add [of y m 1 "daysInMonth y m - 1"] by simp
  ultimately show "MakeDay y m 1 \<le> Day t \<and> Day t \<le> MakeDay y m (daysInMonth y m)"
    using DateFromTime_bounds [of t] by (simp add: ym)
next
  assume b: "MakeDay y m 1 \<le> Day t \<and> Day t \<le> MakeDay y m (daysInMonth y m)"
  define dt where "dt = Day t - MakeDay y m 1 + 1"
  have e0: "MakeDay y m dt = MakeDay y m 1 + (dt - 1)"
    using MakeDay_add [of y m 1 "dt - 1"] by simp
  have "Day t = MakeDay y m 1 + (dt - 1)" by (simp add: dt_def)
  then have e: "Day t = MakeDay y m dt" by (simp only: e0)
  have "MakeDay y m (daysInMonth y m) = MakeDay y m 1 + (daysInMonth y m - 1)"
    using MakeDay_add [of y m 1 "daysInMonth y m - 1"] by simp
  with b have r: "1 \<le> dt" "dt \<le> daysInMonth y m" by (simp_all add: dt_def)
  from civil_getters [OF m r e] show "getFullYear t = y \<and> getMonth t = m" by simp
qed

lemma in_window_days:
  shows "MakeDate a 0 \<le> t \<and> t \<le> MakeDate b (msPerDay - 1) \<longleftrightarrow> a \<le> Day t \<and> Day t \<le> b"
proof -
  have "MakeDate a 0 \<le> t \<longleftrightarrow> a \<le> Day t" using Day_le_iff [of a t] by (simp add: MakeDate_def)
  moreover have "t \<le> MakeDate b (msPerDay - 1) \<longleftrightarrow> Day t \<le> b"
  proof -
    have "t \<le> MakeDate b (msPerDay - 1) \<longleftrightarrow> t < (b + 1) * msPerDay"
      by (auto simp: MakeDate_def algebra_simps)
    then show ?thesis using Day_less_iff [of t "b + 1"] by simp
  qed
  ultimately show ?thesis by simp
qed


lemma new_Date_plain:
  "y < 0 \<or> 99 < y \<Longrightarrow> new_Date y m d h mi s ms = MakeDate (MakeDay y m d) (MakeTime h mi s ms)"
  by (auto simp: new_Date_def)

lemma periodWindow_month:
  assumes "getFullYear t < 0 \<or> 99 < getFullYear t"
  shows "periodWindow ''month'' t
     = Inr (MakeDate (MakeDay (getFullYear t) (getMonth t) 1) (MakeTime 0 0 0 0),
            MakeDate (MakeDay (getFullYear t) (getMonth t) (daysInMonth (getFullYear t) (getMonth t)))
              (MakeTime 23 59 59 999))"
proof -
  have "0 \<le> getMonth t" "getMonth t \<le> 11" using MonthFromTime_range [of t] by (simp_all add: getMonth_def)
  then show ?thesis using assms
    by (simp add: periodWindow_def new_Date_plain MakeDay_last)
qed

lemma MakeDay_year_start: "MakeDay y 0 1 = DayFromYear y"
  by (simp add: MakeDay_def DaysBeforeMonth_def)

lemma MakeDay_year_end: "MakeDay y 11 31 = DayFromYear (y + 1) - 1"
  using DaysInYear_cases [of y]
  by (auto simp: MakeDay_def DaysBeforeMonth_def DayFromYear_step)

lemma periodWindow_year:
  assumes "getFullYear t < 0 \<or> 99 < getFullYear t"
  shows "periodWindow ''year'' t
     = Inr (MakeDate (MakeDay (getFullYear t) 0 1) (MakeTime 0 0 0 0),
            MakeDate (MakeDay (getFullYear t) 11 31) (MakeTime 23 59 59 999))"
  using assms by (simp add: periodWindow_def new_Date_plain)

lemma in_year_iff:
  "getFullYear t = y \<longleftrightarrow> MakeDay y 0 1 \<le> Day t \<and> Day t \<le> MakeDay y 11 31"
proof
  assume "getFullYear t = y"
  then have "YearFromDay (Day t) = y" by (simp add: getFullYear_def YearFromTime_def)
  with YearFromDay_bounds [of "Day t"] show "MakeDay y 0 1 \<le> Day t \<and> Day t \<le> MakeDay y 11 31"
    by (simp add: MakeDay_year_start MakeDay_year_end)
next
  assume "MakeDay y 0 1 \<le> Day t \<and> Day t \<le> MakeDay y 11 31"
  then have "DayFromYear y \<le> Day t" "Day t < DayFromYear (y + 1)"
    by (simp_all add: MakeDay_year_start MakeDay_year_end)
  then show "getFullYear t = y" unfolding getFullYear_def YearFromTime_def by (rule YearFromDay_unique)
qed

lemma same_day_civil:
  assumes "Day t = Day r"
  shows "YearFromTime t = YearFromTime r" "MonthFromTime t = MonthFromTime r"
    "DateFromTime t = DateFromTime r" "WeekDay t = WeekDay r"
proof -
  show y: "YearFromTime t = YearFromTime r" by (simp add: YearFromTime_def assms)
  have l: "InLeapYear t = InLeapYear r" by (simp add: InLeapYear_def y)
  have d: "DayWithinYear t = DayWithinYear r" by (simp add: DayWithinYear_def y assms)
  show m: "MonthFromTime t = MonthFromTime r" by (simp only: MonthFromTime_def l d)
  show "DateFromTime t = DateFromTime r" by (simp only: DateFromTime_eq l d m)
  show "WeekDay t = WeekDay r" by (simp add: WeekDay_def assms)
qed

lemma toDateString_iff: "toDateString t = toDateString r \<longleftrightarrow> Day t = Day r"
proof
  assume "toDateString t = toDateString r"
  then have "YearFromTime t = YearFromTime r" "MonthFromTime t = MonthFromTime r"
    "DateFromTime t = DateFromTime r" by (simp_all add: toDateString_def)
  with MakeDay_civil [of t 0] MakeDay_civil [of r 0] show "Day t = Day r" by simp
next
  assume "Day t = Day r"
  from same_day_civil [OF this] show "toDateString t = toDateString r" by (simp add: toDateString_def)
qed

lemma MakeTime_first_last: "MakeTime 0 0 0 0 = 0" "MakeTime 23 59 59 999 = msPerDay - 1"
  by (simp_all add: MakeTime_def msPerDay_def)

lemma inPeriod_resolveWindow:
  assumes "resolveWindow unit r = Some (s, e)"
  shows "inPeriod unit r t \<longleftrightarrow> s \<le> t \<and> t \<le> e"
proof -
  consider "unit = ''day''" | "unit = ''week''" | "unit = ''month''" | "unit = ''year''"
    using assms by (auto simp: resolveWindow_def Let_def split: if_splits)
  then show ?thesis
  proof cases
    case 1
    with assms have "s = MakeDate (Day r) 0" "e = MakeDate (Day r) (msPerDay - 1)"
      by (simp_all add: resolveWindow_def Let_def MakeTime_first_last)
    then show ?thesis using 1 in_window_days [of "Day r" t "Day r"]
      by (auto simp: inPeriod_def toDateString_iff)
  next
    case 2
    with assms show ?thesis
      by (auto simp: resolveWindow_def Let_def inPeriod_week MakeTime_first_last)
  next
    case 3
    have m: "0 \<le> getMonth r" "getMonth r \<le> 11" using MonthFromTime_range [of r] by (simp_all add: getMonth_def)
    from 3 assms have "s = MakeDate (MakeDay (getFullYear r) (getMonth r) 1) 0"
      "e = MakeDate (MakeDay (getFullYear r) (getMonth r) (daysInMonth (getFullYear r) (getMonth r))) (msPerDay - 1)"
      by (simp_all add: resolveWindow_def Let_def MakeTime_first_last getFullYear_def getMonth_def)
    then show ?thesis using 3 in_month_iff [OF m, of t "getFullYear r"]
      by (simp add: inPeriod_def in_window_days)
  next
    case 4
    from 4 assms have "s = MakeDate (MakeDay (getFullYear r) 0 1) 0"
      "e = MakeDate (MakeDay (getFullYear r) 11 31) (msPerDay - 1)"
      by (simp_all add: resolveWindow_def Let_def MakeTime_first_last getFullYear_def)
    then show ?thesis using 4 in_year_iff [of t "getFullYear r"]
      by (simp add: inPeriod_def in_window_days)
  qed
qed

lemma periodWindow_resolveWindow:
  assumes "resolveWindow unit r = Some w"
    and "unit = ''month'' \<or> unit = ''year'' \<Longrightarrow> getFullYear r < 0 \<or> 99 < getFullYear r"
  shows "periodWindow unit r = Inr w"
proof -
  consider "unit = ''day''" | "unit = ''week''" | "unit = ''month''" | "unit = ''year''"
    using assms(1) by (auto simp: resolveWindow_def Let_def split: if_splits)
  then show ?thesis
  proof cases
    case 1
    with assms(1) show ?thesis by (auto simp: resolveWindow_def Let_def periodWindow_day)
  next
    case 2
    with assms(1) show ?thesis by (auto simp: resolveWindow_def Let_def periodWindow_week MakeTime_first_last)
  next
    case 3
    with assms show ?thesis
      by (auto simp: resolveWindow_def Let_def periodWindow_month getFullYear_def getMonth_def)
  next
    case 4
    with assms show ?thesis
      by (auto simp: resolveWindow_def Let_def periodWindow_year getFullYear_def)
  qed
qed


lemmas makeday_eval = MakeDay_def DayFromYear_def DaysInYear_def DaysBeforeMonth_def daysInMonth_def
  Let_def Day_def msPerDay_def MakeDate_def MakeTime_def

lemma month_window_of_leap_february:
  "getFullYear 1707955200000 = 2024 \<and> getMonth 1707955200000 = 1 \<and> getDate 1707955200000 = 15
   \<and> periodWindow ''month'' 1707955200000 = Inr (1706745600000, 1709251199999)
   \<and> getFullYear 1709251199999 = 2024 \<and> getMonth 1709251199999 = 1
   \<and> getDate 1709251199999 = 29
   \<and> TimeWithinDay 1709251199999 = MakeTime 23 59 59 999"
proof -
  have r: "getFullYear 1707955200000 = 2024 \<and> getMonth 1707955200000 = 1 \<and> getDate 1707955200000 = 15"
    by (rule civil_getters) (simp_all add: makeday_eval)
  have e: "getFullYear 1709251199999 = 2024 \<and> getMonth 1709251199999 = 1 \<and> getDate 1709251199999 = 29"
    by (rule civil_getters) (simp_all add: makeday_eval)
  have w: "periodWindow ''month'' 1707955200000 = Inr (1706745600000, 1709251199999)"
    by (simp add: periodWindow_def r new_Date_def makeday_eval)
  from r e w show ?thesis by (simp add: TimeWithinDay_def msPerDay_def MakeTime_def)
qed

lemma month_window_correct:
  assumes "getFullYear r < 0 \<or> 99 < getFullYear r"
  shows "\<exists>s e. periodWindow ''month'' r = Inr (s, e)
     \<and> getFullYear s = getFullYear r \<and> getMonth s = getMonth r \<and> getDate s = 1
     \<and> TimeWithinDay s = MakeTime 0 0 0 0
     \<and> getFullYear e = getFullYear r \<and> getMonth e = getMonth r
     \<and> getDate e = daysInMonth (getFullYear r) (getMonth r)
     \<and> TimeWithinDay e = MakeTime 23 59 59 999
     \<and> s \<le> r \<and> r \<le> e"
proof -
  define y where "y = getFullYear r"
  define m where "m = getMonth r"
  define s where "s = MakeDate (MakeDay y m 1) (MakeTime 0 0 0 0)"
  define e where "e = MakeDate (MakeDay y m (daysInMonth y m)) (MakeTime 23 59 59 999)"
  have m: "0 \<le> m" "m \<le> 11" using MonthFromTime_range [of r] by (simp_all add: m_def getMonth_def)
  have w: "periodWindow ''month'' r = Inr (s, e)"
    using periodWindow_month [OF assms] by (simp add: s_def e_def y_def m_def)
  have ds: "Day s = MakeDay y m 1" unfolding s_def by (rule Day_MakeDate) (rule MakeTime_bounds)+
  have de: "Day e = MakeDay y m (daysInMonth y m)" unfolding e_def
    by (rule Day_MakeDate) (rule MakeTime_bounds)+
  have gs: "getFullYear s = y \<and> getMonth s = m \<and> getDate s = 1"
    by (rule civil_getters [OF m _ _ ds]) (simp_all add: daysInMonth_pos)
  have ge: "getFullYear e = y \<and> getMonth e = m \<and> getDate e = daysInMonth y m"
    by (rule civil_getters [OF m _ _ de]) (simp_all add: daysInMonth_pos)
  have ts: "TimeWithinDay s = MakeTime 0 0 0 0" unfolding s_def
    by (rule TimeWithinDay_MakeDate) (rule MakeTime_bounds)+
  have te: "TimeWithinDay e = MakeTime 23 59 59 999" unfolding e_def
    by (rule TimeWithinDay_MakeDate) (rule MakeTime_bounds)+
  have "resolveWindow ''month'' r = Some (s, e)"
    by (simp add: resolveWindow_def Let_def s_def e_def y_def m_def getFullYear_def getMonth_def)
  from inPeriod_resolveWindow [OF this, of r] have "s \<le> r \<and> r \<le> e"
    by (simp add: inPeriod_def)
  with w gs ge ts te show ?thesis unfolding y_def m_def by blast
qed


text \<open>
  Claim C5. For every reference date the month window runs from the first day of the
  month of the reference, 00:00:00.000, to its last day, 23:59:59.999. The two lemmas
  above show it for every reference outside the years 0 to 99, with February 2024 as the
  example. \<^verbatim>\<open>new Date(year, month, 1)\<close> reads a year from 0 to 99 as 1900 + year: for the
  reference 15 February of the year 50 the window that DatabaseStorage computes is
  February 1950, and the reference is not in it. MemStorage compares \<^verbatim>\<open>getFullYear()\<close> and
  \<^verbatim>\<open>getMonth()\<close> and keeps the expenses of February 50.
\<close>

theorem C5_month_window_of_year_50:
  "getFullYear (- 60585408000000) = 50 \<and> getMonth (- 60585408000000) = 1
   \<and> getDate (- 60585408000000) = 15
   \<and> periodWindow ''month'' (- 60585408000000) = Inr (- 628473600000, - 626054400001)
   \<and> getFullYear (- 628473600000) = 1950 \<and> getMonth (- 628473600000) = 1
   \<and> getDate (- 628473600000) = 1
   \<and> getFullYear (- 626054400001) = 1950 \<and> getMonth (- 626054400001) = 1
   \<and> getDate (- 626054400001) = 28
   \<and> (- 60585408000000 :: int) < - 628473600000"
proof -
  have r: "getFullYear (- 60585408000000) = 50 \<and> getMonth (- 60585408000000) = 1
           \<and> getDate (- 60585408000000) = 15"
    by (rule civil_getters) (simp_all add: makeday_eval)
  have s: "getFullYear (- 628473600000) = 1950 \<and> getMonth (- 628473600000) = 1
           \<and> getDate (- 628473600000) = 1"
    by (rule civil_getters) (simp_all add: makeday_eval)
  have e: "getFullYear (- 626054400001) = 1950 \<and> getMonth (- 626054400001) = 1
           \<and> getDate (- 626054400001) = 28"
    by (rule civil_getters) (simp_all add: makeday_eval)
  have w: "periodWindow ''month'' (- 60585408000000) = Inr (- 628473600000, - 626054400001)"
    by (simp add: periodWindow_def r new_Date_def makeday_eval)
  from r s e w show ?thesis by simp
qed



section \<open>The expenses of a window\<close>

lemma insort_cmp_byDateDesc: "insort_cmp byDateDesc x ys = insort_key (\<lambda>e. - date e) x ys"
  by (induction ys) (auto simp: byDateDesc_def)

lemma js_sort_byDateDesc: "js_sort byDateDesc xs = sort_key (\<lambda>e. - date e) xs"
  by (simp add: js_sort_def sort_key_def insort_cmp_byDateDesc [abs_def])

lemma sorted_desc_map:
  assumes "\<And>e. date (f e) = date e"
  shows "sorted_wrt (\<lambda>a b. date b \<le> date a) (map f (sort_key (\<lambda>e. - date e) xs))"
proof -
  have "sorted (map (\<lambda>e. - date e) (sort_key (\<lambda>e. - date e) xs))" by (rule sorted_sort_key)
  then have "sorted_wrt (\<lambda>a b. date b \<le> date a) (sort_key (\<lambda>e. - date e) xs)"
    by (simp add: sorted_wrt_map)
  then show ?thesis by (simp add: sorted_wrt_map assms)
qed

lemma resolveWindow_february_2024:
  "resolveWindow ''month'' 1707955200000 = Some (1706745600000, 1709251199999)"
proof -
  have "YearFromTime 1707955200000 = 2024" "MonthFromTime 1707955200000 = 1"
    using month_window_of_leap_february by (simp_all add: getFullYear_def getMonth_def)
  then show ?thesis by (simp add: resolveWindow_def makeday_eval)
qed

text \<open>
  Claim C8. The expenses that MemStorage returns for a user, for a user and a month, and
  for a user and a period are sorted by date, the most recent first, and they are
  exactly the expenses of that user whose date lies in the window, each one once: the
  month from its first day at 00:00:00.000 to its last day at 23:59:59.999, and for a
  period the window that the specification resolves.
\<close>

theorem C8_window_expenses_sorted_and_exact:
  "sorted_wrt (\<lambda>a b. date b \<le> date a) (getExpensesByUserId s uid)
   \<and> mset (getExpensesByUserId s uid)
       = mset (map (withCategory s) (filter (\<lambda>e. userId e = uid) (map snd (expenses s))))
   \<and> sorted_wrt (\<lambda>a b. date b \<le> date a) (getExpensesByUserIdAndMonth s uid year month)
   \<and> (1 \<le> month \<and> month \<le> 12 \<longrightarrow>
        mset (getExpensesByUserIdAndMonth s uid year month)
        = mset (map (withCategory s)
            (filter (\<lambda>e. userId e = uid
                       \<and> MakeDate (MakeDay year (month - 1) 1) (MakeTime 0 0 0 0) \<le> date e
                       \<and> date e \<le> MakeDate (MakeDay year (month - 1) (daysInMonth year (month - 1)))
                                     (MakeTime 23 59 59 999))
               (map snd (expenses s)))))
   \<and> sorted_wrt (\<lambda>a b. date b \<le> date a) (getExpensesByUserIdAndPeriod s uid period ref)
   \<and> (resolveWindow period ref = Some (start, end) \<longrightarrow>
        mset (getExpensesByUserIdAndPeriod s uid period ref)
        = mset (map (withCategory s)
            (filter (\<lambda>e. userId e = uid \<and> start \<le> date e \<and> date e \<le> end)
               (map snd (expenses s)))))"
proof (intro conjI impI)
  show "sorted_wrt (\<lambda>a b. date b \<le> date a) (getExpensesByUserId s uid)"
    unfolding getExpensesByUserId_def Let_def js_sort_byDateDesc by (rule sorted_desc_map) simp
  show "sorted_wrt (\<lambda>a b. date b \<le> date a) (getExpensesByUserIdAndMonth s uid year month)"
    unfolding getExpensesByUserIdAndMonth_def Let_def js_sort_byDateDesc by (rule sorted_desc_map) simp
  show "sorted_wrt (\<lambda>a b. date b \<le> date a) (getExpensesByUserIdAndPeriod s uid period ref)"
    unfolding getExpensesByUserIdAndPeriod_def Let_def js_sort_byDateDesc by (rule sorted_desc_map) simp
  show "mset (getExpensesByUserId s uid)
       = mset (map (withCategory s) (filter (\<lambda>e. userId e = uid) (map snd (expenses s))))"
    by (simp add: getExpensesByUserId_def js_sort_byDateDesc)
next
  assume m: "1 \<le> month \<and> month \<le> 12"
  then have m': "0 \<le> month - 1" "month - 1 \<le> 11" by simp_all
  have "\<And>t. (getFullYear t = year \<and> getMonth t = month - 1)
        \<longleftrightarrow> (MakeDate (MakeDay year (month - 1) 1) (MakeTime 0 0 0 0) \<le> t
           \<and> t \<le> MakeDate (MakeDay year (month - 1) (daysInMonth year (month - 1))) (MakeTime 23 59 59 999))"
    by (simp add: in_month_iff [OF m'] MakeTime_first_last in_window_days)
  then have eq: "(\<lambda>expense. if userId expense \<noteq> uid then False
                else getFullYear (date expense) = year \<and> getMonth (date expense) = month - 1)
      = (\<lambda>e. userId e = uid
               \<and> MakeDate (MakeDay year (month - 1) 1) (MakeTime 0 0 0 0) \<le> date e
               \<and> date e \<le> MakeDate (MakeDay year (month - 1) (daysInMonth year (month - 1)))
                             (MakeTime 23 59 59 999))"
    by (auto simp: fun_eq_iff)
  show "mset (getExpensesByUserIdAndMonth s uid year month)
        = mset (map (withCategory s)
            (filter (\<lambda>e. userId e = uid
                       \<and> MakeDate (MakeDay year (month - 1) 1) (MakeTime 0 0 0 0) \<le> date e
                       \<and> date e \<le> MakeDate (MakeDay year (month - 1) (daysInMonth year (month - 1)))
                                     (MakeTime 23 59 59 999))
               (map snd (expenses s))))"
    unfolding getExpensesByUserIdAndMonth_def js_sort_byDateDesc Let_def eq by simp
next
  assume w: "resolveWindow period ref = Some (start, end)"
  have eq: "(\<lambda>expense. if userId expense \<noteq> uid then False else inPeriod period ref (date expense))
      = (\<lambda>e. userId e = uid \<and> start \<le> date e \<and> date e \<le> end)"
    by (auto simp: fun_eq_iff inPeriod_resolveWindow [OF w])
  show "mset (getExpensesByUserIdAndPeriod s uid period ref)
        = mset (map (withCategory s)
            (filter (\<lambda>e. userId e = uid \<and> start \<le> date e \<and> date e \<le> end)
               (map snd (expenses s))))"
    unfolding getExpensesByUserIdAndPeriod_def js_sort_byDateDesc Let_def eq by simp
qed


theorem C8_window_expenses_sorted_and_exact_witness:
  "(1 :: int) \<le> 2 \<and> (2 :: int) \<le> 12
   \<and> resolveWindow ''month'' 1707955200000 = Some (1706745600000, 1709251199999)
   \<and> mset (getExpensesByUserIdAndPeriod
         (storeOf [food, transport]
            [expenseOf 1 ''10.00'' 1 1707091200000, expenseOf 2 ''5.50'' 1 1708387200000,
             expenseOf 3 ''7.25'' 2 1707523200000, expenseOf 4 ''20.00'' 2 1705276800000])
         1 ''month'' 1707955200000)
       = mset (map (withCategory (storeOf [food, transport]
            [expenseOf 1 ''10.00'' 1 1707091200000, expenseOf 2 ''5.50'' 1 1708387200000,
             expenseOf 3 ''7.25'' 2 1707523200000, expenseOf 4 ''20.00'' 2 1705276800000]))
           [expenseOf 1 ''10.00'' 1 1707091200000, expenseOf 2 ''5.50'' 1 1708387200000,
            expenseOf 3 ''7.25'' 2 1707523200000])
   \<and> map exp_id (getExpensesByUserIdAndPeriod
         (storeOf [food, transport]
            [expenseOf 1 ''10.00'' 1 1707091200000, expenseOf 2 ''5.50'' 1 1708387200000,
             expenseOf 3 ''7.25'' 2 1707523200000, expenseOf 4 ''20.00'' 2 1705276800000])
         1 ''month'' 1707955200000) = [2, 3, 1]
   \<and> mset (getExpensesByUserIdAndMonth
         (storeOf [food, transport]
            [expenseOf 1 ''10.00'' 1 1707091200000, expenseOf 2 ''5.50'' 1 1708387200000,
             expenseOf 3 ''7.25'' 2 1707523200000, expenseOf 4 ''20.00'' 2 1705276800000])
         1 2024 2)
       = mset (map (withCategory (storeOf [food, transport]
            [expenseOf 1 ''10.00'' 1 1707091200000, expenseOf 2 ''5.50'' 1 1708387200000,
             expenseOf 3 ''7.25'' 2 1707523200000, expenseOf 4 ''20.00'' 2 1705276800000]))
           [expenseOf 1 ''10.00'' 1 1707091200000, expenseOf 2 ''5.50'' 1 1708387200000,
            expenseOf 3 ''7.25'' 2 1707523200000])"
proof -
  let ?s = "storeOf [food, transport]
            [expenseOf 1 ''10.00'' 1 1707091200000, expenseOf 2 ''5.50'' 1 1708387200000,
             expenseOf 3 ''7.25'' 2 1707523200000, expenseOf 4 ''20.00'' 2 1705276800000]"
  have m: "(1 :: int) \<le> 2 \<and> (2 :: int) \<le> 12" by simp
  note w = resolveWindow_february_2024
  note c8 = C8_window_expenses_sorted_and_exact [of ?s 1 2024 2 "''month''" 1707955200000
      1706745600000 1709251199999]
  from c8 w have "mset (getExpensesByUserIdAndPeriod ?s 1 ''month'' 1707955200000)
      = mset (map (withCategory ?s) (filter (\<lambda>e. userId e = 1 \<and> 1706745600000 \<le> date e
            \<and> date e \<le> 1709251199999) (map snd (expenses ?s))))" by blast
  also have "filter (\<lambda>e. userId e = 1 \<and> 1706745600000 \<le> date e \<and> date e \<le> 1709251199999)
         (map snd (expenses ?s))
      = [expenseOf 1 ''10.00'' 1 1707091200000, expenseOf 2 ''5.50'' 1 1708387200000,
         expenseOf 3 ''7.25'' 2 1707523200000]" by simp
  finally have p: "mset (getExpensesByUserIdAndPeriod ?s 1 ''month'' 1707955200000)
      = mset (map (withCategory ?s) [expenseOf 1 ''10.00'' 1 1707091200000,
           expenseOf 2 ''5.50'' 1 1708387200000, expenseOf 3 ''7.25'' 2 1707523200000])" .
  have pe: "map exp_id (getExpensesByUserIdAndPeriod ?s 1 ''month'' 1707955200000) = [2, 3, 1]"
    by (simp add: getExpensesByUserIdAndPeriod_def js_sort_byDateDesc inPeriod_resolveWindow [OF w])
  from c8 m have "mset (getExpensesByUserIdAndMonth ?s 1 2024 2)
      = mset (map (withCategory ?s) (filter (\<lambda>e. userId e = 1
            \<and> MakeDate (MakeDay 2024 (2 - 1) 1) (MakeTime 0 0 0 0) \<le> date e
            \<and> date e \<le> MakeDate (MakeDay 2024 (2 - 1) (daysInMonth 2024 (2 - 1))) (MakeTime 23 59 59 999))
          (map snd (expenses ?s))))" by blast
  also have "filter (\<lambda>e. userId e = 1
            \<and> MakeDate (MakeDay 2024 (2 - 1) 1) (MakeTime 0 0 0 0) \<le> date e
            \<and> date e \<le> MakeDate (MakeDay 2024 (2 - 1) (daysInMonth 2024 (2 - 1))) (MakeTime 23 59 59 999))
          (map snd (expenses ?s))
      = [expenseOf 1 ''10.00'' 1 1707091200000, expenseOf 2 ''5.50'' 1 1708387200000,
         expenseOf 3 ''7.25'' 2 1707523200000]" by (simp add: makeday_eval)
  finally have q: "mset (getExpensesByUserIdAndMonth ?s 1 2024 2)
      = mset (map (withCategory ?s) [expenseOf 1 ''10.00'' 1 1707091200000,
           expenseOf 2 ''5.50'' 1 1708387200000, expenseOf 3 ''7.25'' 2 1707523200000])" .
  from m w p pe q show ?thesis by blast
qed


section \<open>The totals of a window\<close>

lemma inPeriod_day: "inPeriod ''day'' r t \<longleftrightarrow> Day t = Day r"
  by (simp add: inPeriod_def toDateString_iff)

lemmas post_eval = storeAfter_def insertOf_def createExpense_def or_null_def store_eval

lemma food_of_storeAfter:
  "map_of (categories (storeAfter posted)) 1
     = Some \<lparr>cat_id = 1, name = ''Food'', icon = ''fas fa-utensils'', color = ''blue''\<rparr>"
proof -
  have "categories (foldl (\<lambda>s e. fst (createExpense now s e)) s0 posted) = categories s0" for now s0
    by (induction posted arbitrary: s0) (simp_all add: createExpense_def Let_def)
  then show ?thesis by (simp add: storeAfter_def store_eval)
qed

lemma tenths_selected:
  "map (\<lambda>e. (exp_id e, categoryId e, amount e))
     (getExpensesByUserIdAndPeriod
        (storeAfter [insertOf ''0.10'' 1 1710028800000, insertOf ''0.20'' 1 1710028800000])
        1 ''day'' 1710028800000)
   = [(7, 1, ''0.10''), (8, 1, ''0.20'')]"
  by (simp add: getExpensesByUserIdAndPeriod_def inPeriod_day post_eval Day_def msPerDay_def
      js_sort_byDateDesc)


lemma foldl_addToTotals_pairs:
  "map (\<lambda>e. (categoryId e, amount e)) es = kas \<Longrightarrow>
   foldl addToTotals m es
     = foldl (\<lambda>m (k, a). AList.update k
                (js_add (case map_of m k of None \<Rightarrow> Fin 0 | Some v \<Rightarrow> if falsy v then Fin 0 else v)
                   (parseFloat a)) m) m kas"
  by (induction es arbitrary: m kas) (auto simp: addToTotals_def)

lemma parse_tenths:
  "parseFloat ''0.10'' = Fin (3602879701896397 / 36028797018963968)"
  "parseFloat ''0.20'' = Fin (3602879701896397 / 18014398509481984)"
  by (simp_all add: parse_eval fl_eval)

lemma fl_three_tenths: "fl (3 / 10) = Fin (5404319552844595 / 18014398509481984)"
  by (simp add: fl_eval)

lemma js_sort_single: "js_sort cmp [x] = [x]"
  by (simp add: js_sort_def)

lemma tenths_mem_totals:
  "getCategoryTotalsByPeriod
      (storeAfter [insertOf ''0.10'' 1 1710028800000, insertOf ''0.20'' 1 1710028800000])
      1 ''day'' 1710028800000
   = Inr [\<lparr>t_categoryId = 1, categoryName = ''Food'',
           total = Fin (1351079888211149 / 4503599627370496),
           t_color = ''blue'', t_icon = ''fas fa-utensils''\<rparr>]"
proof -
  let ?s = "storeAfter [insertOf ''0.10'' 1 1710028800000, insertOf ''0.20'' 1 1710028800000]"
  have "map (\<lambda>e. (categoryId e, amount e)) (getExpensesByUserIdAndPeriod ?s 1 ''day'' 1710028800000)
      = [(1, ''0.10''), (1, ''0.20'')]"
    using tenths_selected [THEN arg_cong, of "map snd"] by (simp add: comp_def)
  from foldl_addToTotals_pairs [OF this, of "[]"]
  have "foldl addToTotals [] (getExpensesByUserIdAndPeriod ?s 1 ''day'' 1710028800000)
      = [(1, Fin (1351079888211149 / 4503599627370496))]"
    by (simp add: parse_tenths fl_eval)
  then show ?thesis
    by (simp add: getCategoryTotalsByPeriod_def categoryTotalsOf_def food_of_storeAfter js_sort_single)
qed

lemma castDecimal_tenths: "castDecimal ''0.10'' = Some (1 / 10)" "castDecimal ''0.20'' = Some (1 / 5)"
  by (simp_all add: castDecimal_def is_blank_def split_sign_def is_digit_def digits_val_def digit_val_def)

lemma tenths_db_totals:
  "db_getCategoryTotalsByPeriod
      (tables (storeAfter [insertOf ''0.10'' 1 1710028800000, insertOf ''0.20'' 1 1710028800000]))
      1 ''day'' 1710028800000
   = Inr [\<lparr>t_categoryId = 1, categoryName = ''Food'', total = fl (3 / 10),
           t_color = ''blue'', t_icon = ''fas fa-utensils''\<rparr>]"
  by (simp add: db_getCategoryTotalsByPeriod_def periodWindow_day time_eval selectTotals_def
      groupSums_def joined_def tables_def inWindow_def post_eval castDecimal_tenths
      Number_of_decimal_def fl_three_tenths)

lemma parse_one: "parseFloat ''1.00'' = Fin 1"
  by (simp add: parse_eval fl_eval)

lemma sumAmounts_amounts:
  "sumAmounts es = foldl (\<lambda>sum a. js_add sum (parseFloat a)) (Fin 0) (map amount es)"
  by (simp add: sumAmounts_def foldl_map)


text \<open>
  Claim C1. The totals of a window add up to the sum of the amounts of the expenses of the
  window, in decimal arithmetic on the stored texts. User 1 posts 0.10 and 0.20 for Food on
  10 March 2024 (time value 1710028800000). The expenses of that day are these two, and
  their amounts add up to 3/10. MemStorage adds \<^verbatim>\<open>parseFloat(expense.amount)\<close> in binary64:
  the one total it returns is 0.30000000000000004, which is 3/10 + 1/22517998136852480 and
  is not the binary64 number of 3/10 either; the sum that the route takes is the same.
  DatabaseStorage adds with \<^verbatim>\<open>sum(cast(amount as decimal))\<close> and returns the number of 3/10.
\<close>

theorem C1_sum_of_tenths:
  "map amount (getExpensesByUserIdAndPeriod
       (storeAfter [insertOf ''0.10'' 1 1710028800000, insertOf ''0.20'' 1 1710028800000])
       1 ''day'' 1710028800000) = [''0.10'', ''0.20'']
   \<and> sumDecimal [''0.10'', ''0.20''] = Some (3 / 10)
   \<and> getCategoryTotalsByPeriod
       (storeAfter [insertOf ''0.10'' 1 1710028800000, insertOf ''0.20'' 1 1710028800000])
       1 ''day'' 1710028800000
     = Inr [\<lparr>t_categoryId = 1, categoryName = ''Food'',
             total = Fin (1351079888211149 / 4503599627370496),
             t_color = ''blue'', t_icon = ''fas fa-utensils''\<rparr>]
   \<and> sumAmounts (getExpensesByUserIdAndPeriod
       (storeAfter [insertOf ''0.10'' 1 1710028800000, insertOf ''0.20'' 1 1710028800000])
       1 ''day'' 1710028800000) = Fin (1351079888211149 / 4503599627370496)
   \<and> (1351079888211149 / 4503599627370496 :: rat) = 3 / 10 + 1 / 22517998136852480
   \<and> Fin (1351079888211149 / 4503599627370496) \<noteq> fl (3 / 10)
   \<and> db_getCategoryTotalsByPeriod
       (tables (storeAfter [insertOf ''0.10'' 1 1710028800000, insertOf ''0.20'' 1 1710028800000]))
       1 ''day'' 1710028800000
     = Inr [\<lparr>t_categoryId = 1, categoryName = ''Food'', total = fl (3 / 10),
             t_color = ''blue'', t_icon = ''fas fa-utensils''\<rparr>]"
proof -
  have a: "map amount (getExpensesByUserIdAndPeriod
       (storeAfter [insertOf ''0.10'' 1 1710028800000, insertOf ''0.20'' 1 1710028800000])
       1 ''day'' 1710028800000) = [''0.10'', ''0.20'']"
    using tenths_selected [THEN arg_cong, of "map (\<lambda>p. snd (snd p))"] by (simp add: comp_def)
  have b: "sumDecimal [''0.10'', ''0.20''] = Some (3 / 10)"
    by (simp add: castDecimal_tenths)
  have c: "(1351079888211149 / 4503599627370496 :: rat) = 3 / 10 + 1 / 22517998136852480"
    by simp
  have d: "Fin (1351079888211149 / 4503599627370496) \<noteq> fl (3 / 10)"
    by (simp add: fl_three_tenths)
  have e: "sumAmounts (getExpensesByUserIdAndPeriod
       (storeAfter [insertOf ''0.10'' 1 1710028800000, insertOf ''0.20'' 1 1710028800000])
       1 ''day'' 1710028800000) = Fin (1351079888211149 / 4503599627370496)"
    unfolding sumAmounts_amounts a by (simp add: parse_tenths fl_eval)
  show ?thesis by (intro conjI a b c d e tenths_mem_totals tenths_db_totals)
qed


section \<open>The two backends\<close>

lemma inPeriod_month_of_year_50:
  "inPeriod ''month'' (- 60585408000000) t \<longleftrightarrow> MakeDay 50 1 1 \<le> Day t \<and> Day t \<le> MakeDay 50 1 28"
proof -
  have r: "getFullYear (- 60585408000000) = 50 \<and> getMonth (- 60585408000000) = 1
           \<and> getDate (- 60585408000000) = 15"
    by (rule civil_getters) (simp_all add: makeday_eval)
  have "inPeriod ''month'' (- 60585408000000) t \<longleftrightarrow> getFullYear t = 50 \<and> getMonth t = 1"
    by (simp add: inPeriod_def r)
  also have "\<dots> \<longleftrightarrow> MakeDay 50 1 1 \<le> Day t \<and> Day t \<le> MakeDay 50 1 (daysInMonth 50 1)"
    by (rule in_month_iff) simp_all
  finally show ?thesis by (simp add: daysInMonth_def DaysInYear_def)
qed

lemma year_50_selected:
  "map (\<lambda>e. (exp_id e, categoryId e, amount e))
     (getExpensesByUserIdAndPeriod (storeAfter [insertOf ''1.00'' 1 (- 60585408000000)])
        1 ''month'' (- 60585408000000))
   = [(7, 1, ''1.00'')]"
  by (simp add: getExpensesByUserIdAndPeriod_def inPeriod_month_of_year_50 post_eval makeday_eval
      js_sort_byDateDesc)

lemma year_50_mem_totals:
  "getCategoryTotalsByPeriod (storeAfter [insertOf ''1.00'' 1 (- 60585408000000)])
      1 ''month'' (- 60585408000000)
   = Inr [\<lparr>t_categoryId = 1, categoryName = ''Food'', total = Fin 1,
           t_color = ''blue'', t_icon = ''fas fa-utensils''\<rparr>]"
proof -
  let ?s = "storeAfter [insertOf ''1.00'' 1 (- 60585408000000)]"
  have "map (\<lambda>e. (categoryId e, amount e))
          (getExpensesByUserIdAndPeriod ?s 1 ''month'' (- 60585408000000)) = [(1, ''1.00'')]"
    using year_50_selected [THEN arg_cong, of "map snd"] by (simp add: comp_def)
  from foldl_addToTotals_pairs [OF this, of "[]"]
  have "foldl addToTotals [] (getExpensesByUserIdAndPeriod ?s 1 ''month'' (- 60585408000000))
      = [(1, Fin 1)]"
    by (simp add: parse_one fl_eval)
  then show ?thesis
    by (simp add: getCategoryTotalsByPeriod_def categoryTotalsOf_def food_of_storeAfter js_sort_single)
qed

lemma year_50_window:
  "periodWindow ''month'' (- 60585408000000) = Inr (- 628473600000, - 626054400001)"
proof -
  have r: "getFullYear (- 60585408000000) = 50 \<and> getMonth (- 60585408000000) = 1
           \<and> getDate (- 60585408000000) = 15"
    by (rule civil_getters) (simp_all add: makeday_eval)
  show ?thesis by (simp add: periodWindow_def r new_Date_def makeday_eval)
qed

lemma year_50_db:
  "db_getExpensesByUserIdAndPeriod (tables (storeAfter [insertOf ''1.00'' 1 (- 60585408000000)]))
      1 ''month'' (- 60585408000000) = Inr []"
  "db_getCategoryTotalsByPeriod (tables (storeAfter [insertOf ''1.00'' 1 (- 60585408000000)]))
      1 ''month'' (- 60585408000000) = Inr []"
  by (simp_all add: db_getExpensesByUserIdAndPeriod_def db_getCategoryTotalsByPeriod_def
      year_50_window selectExpenses_def selectTotals_def groupSums_def joined_def tables_def
      inWindow_def post_eval)


text \<open>
  Claim C4. MemStorage and DatabaseStorage return the same expenses and the same totals of
  a period, on the same records. They differ in two places. User 1 posts 1.00 for Food on
  15 February of the year 50 (time value -60585408000000): for the month of that date
  MemStorage returns the expense and its total, DatabaseStorage looks into February 1950
  and returns nothing. And for the day on which 0.10 and 0.20 are posted, the total of
  MemStorage is 0.30000000000000004 and the total of DatabaseStorage is the number of 3/10.
\<close>

theorem C4_backends_differ:
  "map exp_id (getExpensesByUserIdAndPeriod
       (storeAfter [insertOf ''1.00'' 1 (- 60585408000000)]) 1 ''month'' (- 60585408000000)) = [7]
   \<and> db_getExpensesByUserIdAndPeriod
       (tables (storeAfter [insertOf ''1.00'' 1 (- 60585408000000)])) 1 ''month'' (- 60585408000000)
     = Inr []
   \<and> getCategoryTotalsByPeriod
       (storeAfter [insertOf ''1.00'' 1 (- 60585408000000)]) 1 ''month'' (- 60585408000000)
     = Inr [\<lparr>t_categoryId = 1, categoryName = ''Food'', total = Fin 1,
             t_color = ''blue'', t_icon = ''fas fa-utensils''\<rparr>]
   \<and> db_getCategoryTotalsByPeriod
       (tables (storeAfter [insertOf ''1.00'' 1 (- 60585408000000)])) 1 ''month'' (- 60585408000000)
     = Inr []
   \<and> map_sum id (map total)
       (getCategoryTotalsByPeriod
          (storeAfter [insertOf ''0.10'' 1 1710028800000, insertOf ''0.20'' 1 1710028800000])
          1 ''day'' 1710028800000)
     = Inr [Fin (1351079888211149 / 4503599627370496)]
   \<and> map_sum id (map total)
       (db_getCategoryTotalsByPeriod
          (tables (storeAfter [insertOf ''0.10'' 1 1710028800000, insertOf ''0.20'' 1 1710028800000]))
          1 ''day'' 1710028800000)
     = Inr [Fin (5404319552844595 / 18014398509481984)]"
proof -
  have a: "map exp_id (getExpensesByUserIdAndPeriod
       (storeAfter [insertOf ''1.00'' 1 (- 60585408000000)]) 1 ''month'' (- 60585408000000)) = [7]"
    using year_50_selected [THEN arg_cong, of "map fst"] by (simp add: comp_def)
  have b: "map_sum id (map total)
       (getCategoryTotalsByPeriod
          (storeAfter [insertOf ''0.10'' 1 1710028800000, insertOf ''0.20'' 1 1710028800000])
          1 ''day'' 1710028800000)
     = Inr [Fin (1351079888211149 / 4503599627370496)]"
    unfolding tenths_mem_totals by simp
  have c: "map_sum id (map total)
       (db_getCategoryTotalsByPeriod
          (tables (storeAfter [insertOf ''0.10'' 1 1710028800000, insertOf ''0.20'' 1 1710028800000]))
          1 ''day'' 1710028800000)
     = Inr [Fin (5404319552844595 / 18014398509481984)]"
    unfolding tenths_db_totals by (simp add: fl_three_tenths)
  show ?thesis by (intro conjI a b c year_50_db year_50_mem_totals)
qed


section \<open>The totals by category\<close>

lemma mset_insort_cmp: "mset (insort_cmp cmp x ys) = add_mset x (mset ys)"
  by (induction ys) auto

lemma set_insort_cmp: "set (insort_cmp cmp x ys) = insert x (set ys)"
  by (induction ys) auto

lemma mset_js_sort: "mset (js_sort cmp xs) = mset xs"
  by (induction xs) (simp_all add: js_sort_def mset_insort_cmp)

lemma set_js_sort: "set (js_sort cmp xs) = set xs"
  by (metis mset_js_sort set_mset_mset)

lemma sorted_insort_cmp:
  assumes cmp: "\<And>a b. a \<in> S \<Longrightarrow> b \<in> S \<Longrightarrow> cmp a b \<le> 0 \<longleftrightarrow> P a b"
    and trans: "\<And>a b c. a \<in> S \<Longrightarrow> b \<in> S \<Longrightarrow> c \<in> S \<Longrightarrow> P a b \<Longrightarrow> P b c \<Longrightarrow> P a c"
    and total: "\<And>a b. a \<in> S \<Longrightarrow> b \<in> S \<Longrightarrow> P a b \<or> P b a"
  shows "x \<in> S \<Longrightarrow> set ys \<subseteq> S \<Longrightarrow> sorted_wrt P ys \<Longrightarrow> sorted_wrt P (insort_cmp cmp x ys)"
proof (induction ys)
  case Nil
  then show ?case by simp
next
  case (Cons y ys)
  show ?case
  proof (cases "cmp x y \<le> 0")
    case True
    with Cons.prems have xy: "P x y" by (simp add: cmp)
    have "\<forall>z \<in> set ys. P x z"
    proof
      fix z assume z: "z \<in> set ys"
      with Cons.prems have "P y z" by simp
      with xy show "P x z" using Cons.prems z by (intro trans [of x y z]) auto
    qed
    with True xy Cons.prems show ?thesis by simp
  next
    case False
    with Cons.prems have "\<not> P x y" by (simp add: cmp)
    with total [of x y] Cons.prems have yx: "P y x" by auto
    have "sorted_wrt P (insort_cmp cmp x ys)" using Cons by simp
    moreover have "\<forall>z \<in> set (insort_cmp cmp x ys). P y z"
      using yx Cons.prems by (simp add: set_insort_cmp)
    ultimately show ?thesis using False by simp
  qed
qed

lemma sorted_js_sort:
  assumes cmp: "\<And>a b. a \<in> S \<Longrightarrow> b \<in> S \<Longrightarrow> cmp a b \<le> 0 \<longleftrightarrow> P a b"
    and trans: "\<And>a b c. a \<in> S \<Longrightarrow> b \<in> S \<Longrightarrow> c \<in> S \<Longrightarrow> P a b \<Longrightarrow> P b c \<Longrightarrow> P a c"
    and total: "\<And>a b. a \<in> S \<Longrightarrow> b \<in> S \<Longrightarrow> P a b \<or> P b a"
  shows "set xs \<subseteq> S \<Longrightarrow> sorted_wrt P (js_sort cmp xs)"
proof (induction xs)
  case Nil
  then show ?case by (simp add: js_sort_def)
next
  case (Cons x xs)
  then have "sorted_wrt P (js_sort cmp xs)" by simp
  moreover have "set (js_sort cmp xs) \<subseteq> S" using Cons.prems by (simp add: set_js_sort)
  moreover have "x \<in> S" using Cons.prems by simp
  ultimately have "sorted_wrt P (insort_cmp cmp x (js_sort cmp xs))"
    using sorted_insort_cmp [of S cmp P x "js_sort cmp xs"] cmp trans total by blast
  then show ?case by (simp add: js_sort_def)
qed

lemma js_ge_trans: "js_ge x y \<Longrightarrow> js_ge y z \<Longrightarrow> js_ge x z"
  by (cases x; cases y; cases z) auto

lemma js_ge_total: "x \<noteq> NaN \<Longrightarrow> y \<noteq> NaN \<Longrightarrow> js_ge x y \<or> js_ge y x"
  by (cases x; cases y) auto

lemma is_double_js_add: "is_double (js_add x y)"
  by (cases x; cases y) (simp_all add: fl_is_double, simp_all add: is_double_def)


lemma keys_addToTotals: "fst ` set (addToTotals m e) = insert (categoryId e) (fst ` set m)"
  by (simp add: addToTotals_def Let_def dom_update)

lemma distinct_addToTotals: "distinct (map fst m) \<Longrightarrow> distinct (map fst (addToTotals m e))"
  by (simp add: addToTotals_def Let_def distinct_update)

lemma set_update_subset: "set (AList.update k v al) \<subseteq> insert (k, v) (set al)"
  by (induction al) auto

lemma doubles_addToTotals:
  assumes "\<forall>v \<in> snd ` set m. is_double v"
  shows "\<forall>v \<in> snd ` set (addToTotals m e). is_double v"
proof -
  have "set (addToTotals m e) \<subseteq> insert (categoryId e,
      js_add (case map_of m (categoryId e) of None \<Rightarrow> Fin 0 | Some v \<Rightarrow> if falsy v then Fin 0 else v)
        (parseFloat (amount e))) (set m)"
    unfolding addToTotals_def Let_def by (rule set_update_subset)
  moreover have "is_double (js_add (case map_of m (categoryId e) of None \<Rightarrow> Fin 0
      | Some v \<Rightarrow> if falsy v then Fin 0 else v) (parseFloat (amount e)))"
    by (rule is_double_js_add)
  ultimately show ?thesis using assms by auto
qed

lemma foldl_addToTotals:
  assumes "distinct (map fst m)" "\<forall>v \<in> snd ` set m. is_double v"
  shows "fst ` set (foldl addToTotals m es) = fst ` set m \<union> categoryId ` set es
         \<and> distinct (map fst (foldl addToTotals m es))
         \<and> (\<forall>v \<in> snd ` set (foldl addToTotals m es). is_double v)"
  using assms
proof (induction es arbitrary: m)
  case Nil
  then show ?case by simp
next
  case (Cons e es)
  have d: "distinct (map fst (addToTotals m e))"
    using Cons.prems(1) by (rule distinct_addToTotals)
  have b: "\<forall>v \<in> snd ` set (addToTotals m e). is_double v"
    using Cons.prems(2) by (rule doubles_addToTotals)
  have k: "fst ` set (addToTotals m e) \<union> categoryId ` set es
             = fst ` set m \<union> categoryId ` set (e # es)"
    by (simp add: keys_addToTotals)
  from Cons.IH [OF d b] show ?case unfolding foldl_Cons k [symmetric] .
qed

lemma totalsWithCategory_ok:
  assumes "\<forall>k \<in> fst ` set m. map_of (categories s) k \<noteq> None"
  shows "\<exists>r. totalsWithCategory s m = Inr r \<and> map t_categoryId r = map fst m
             \<and> map total r = map snd m"
  using assms
proof (induction m)
  case Nil
  then show ?case by simp
next
  case (Cons kv m)
  obtain k v where kv: "kv = (k, v)" by (cases kv)
  from Cons.prems kv obtain c where c: "map_of (categories s) k = Some c" by auto
  from Cons obtain r where "totalsWithCategory s m = Inr r" "map t_categoryId r = map fst m"
    "map total r = map snd m" by auto
  then show ?case by (simp add: kv c)
qed

lemma categoryTotalsOf_ok:
  assumes "\<forall>e \<in> set es. map_of (categories s) (categoryId e) \<noteq> None"
  shows "\<exists>r. categoryTotalsOf s es = Inr r
      \<and> distinct (map t_categoryId r)
      \<and> set (map t_categoryId r) = categoryId ` set es
      \<and> (NaN \<notin> total ` set r \<longrightarrow> sorted_wrt (\<lambda>a b. js_ge (total a) (total b)) r)"
proof -
  define m where "m = foldl addToTotals [] es"
  have m: "fst ` set m = categoryId ` set es" "distinct (map fst m)"
    "\<forall>v \<in> snd ` set m. is_double v"
    using foldl_addToTotals [of "[]" es] by (simp_all add: m_def)
  then have "\<forall>k \<in> fst ` set m. map_of (categories s) k \<noteq> None" using assms by auto
  from totalsWithCategory_ok [OF this] obtain r0 where r0: "totalsWithCategory s m = Inr r0"
    "map t_categoryId r0 = map fst m" "map total r0 = map snd m" by blast
  define r where "r = js_sort byTotalDesc r0"
  have res: "categoryTotalsOf s es = Inr r"
    by (simp add: categoryTotalsOf_def m_def [symmetric] r0 r_def)
  have ms: "mset r = mset r0" by (simp add: r_def mset_js_sort)
  then have "mset (map t_categoryId r) = mset (map t_categoryId r0)" by simp
  then have d: "distinct (map t_categoryId r)" and k: "set (map t_categoryId r) = categoryId ` set es"
    using m r0(2) by (metis mset_eq_imp_distinct_iff, metis list.set_map mset_eq_setD)
  have dbl: "\<forall>t \<in> set r0. is_double (total t)"
  proof
    fix t assume "t \<in> set r0"
    then have "total t \<in> set (map total r0)" by simp
    then have "total t \<in> snd ` set m" by (simp add: r0(3))
    with m(3) show "is_double (total t)" by blast
  qed
  have srt: "sorted_wrt (\<lambda>a b. js_ge (total a) (total b)) r" if nan: "NaN \<notin> total ` set r"
    unfolding r_def
  proof (rule sorted_js_sort [where S = "set r0"])
    have nn: "\<And>a. a \<in> set r0 \<Longrightarrow> total a \<noteq> NaN"
      using nan ms by (metis image_eqI mset_eq_setD)
    show "byTotalDesc a b \<le> 0 \<longleftrightarrow> js_ge (total a) (total b)" if "a \<in> set r0" "b \<in> set r0" for a b
      unfolding byTotalDesc_def using that dbl nn by (intro cmp_faithful) auto
    show "js_ge (total a) (total c)" if "js_ge (total a) (total b)" "js_ge (total b) (total c)" for a b c
      using that by (rule js_ge_trans)
    show "js_ge (total a) (total b) \<or> js_ge (total b) (total a)" if "a \<in> set r0" "b \<in> set r0" for a b
      using that nn by (intro js_ge_total) auto
  qed simp
  from res d k srt show ?thesis by blast
qed

lemma fk_withCategory:
  assumes "fk_invariant s" "set xs \<subseteq> set (map snd (expenses s))"
  shows "\<forall>e \<in> set (map (withCategory s) xs). map_of (categories s) (categoryId e) \<noteq> None"
  using assms by (auto simp: fk_invariant_def list_all_iff)

lemma category_totals_of_sound_store:
  assumes "fk_invariant s"
  shows "(\<exists>r. getCategoryTotals s uid year month = Inr r
      \<and> distinct (map t_categoryId r)
      \<and> set (map t_categoryId r) = categoryId ` set (getExpensesByUserIdAndMonth s uid year month)
      \<and> (NaN \<notin> total ` set r \<longrightarrow> sorted_wrt (\<lambda>a b. js_ge (total a) (total b)) r))
   \<and> (\<exists>r. getCategoryTotalsByPeriod s uid period ref = Inr r
      \<and> distinct (map t_categoryId r)
      \<and> set (map t_categoryId r) = categoryId ` set (getExpensesByUserIdAndPeriod s uid period ref)
      \<and> (NaN \<notin> total ` set r \<longrightarrow> sorted_wrt (\<lambda>a b. js_ge (total a) (total b)) r))"
proof
  have "\<forall>e \<in> set (getExpensesByUserIdAndMonth s uid year month).
          map_of (categories s) (categoryId e) \<noteq> None"
    unfolding getExpensesByUserIdAndMonth_def Let_def
    by (rule fk_withCategory [OF assms]) (auto simp: set_js_sort)
  from categoryTotalsOf_ok [OF this]
  show "\<exists>r. getCategoryTotals s uid year month = Inr r
      \<and> distinct (map t_categoryId r)
      \<and> set (map t_categoryId r) = categoryId ` set (getExpensesByUserIdAndMonth s uid year month)
      \<and> (NaN \<notin> total ` set r \<longrightarrow> sorted_wrt (\<lambda>a b. js_ge (total a) (total b)) r)"
    by (simp add: getCategoryTotals_def)
  have "\<forall>e \<in> set (getExpensesByUserIdAndPeriod s uid period ref).
          map_of (categories s) (categoryId e) \<noteq> None"
    unfolding getExpensesByUserIdAndPeriod_def Let_def
    by (rule fk_withCategory [OF assms]) (auto simp: set_js_sort)
  from categoryTotalsOf_ok [OF this]
  show "\<exists>r. getCategoryTotalsByPeriod s uid period ref = Inr r
      \<and> distinct (map t_categoryId r)
      \<and> set (map t_categoryId r) = categoryId ` set (getExpensesByUserIdAndPeriod s uid period ref)
      \<and> (NaN \<notin> total ` set r \<longrightarrow> sorted_wrt (\<lambda>a b. js_ge (total a) (total b)) r)"
    by (simp add: getCategoryTotalsByPeriod_def)
qed

lemma orphan_selected:
  "map (\<lambda>e. (exp_id e, categoryId e, amount e))
     (getExpensesByUserIdAndPeriod (storeAfter [insertOf ''1.00'' 99 1710028800000])
        1 ''day'' 1710028800000)
   = [(7, 99, ''1.00'')]"
  by (simp add: getExpensesByUserIdAndPeriod_def inPeriod_day post_eval Day_def msPerDay_def
      js_sort_byDateDesc)

lemma orphan_selected_month:
  "map (\<lambda>e. (exp_id e, categoryId e, amount e))
     (getExpensesByUserIdAndMonth (storeAfter [insertOf ''1.00'' 99 1710028800000]) 1 2024 3)
   = [(7, 99, ''1.00'')]"
proof -
  have "getFullYear t = 2024 \<and> getMonth t = 2 \<longleftrightarrow> MakeDay 2024 2 1 \<le> Day t \<and> Day t \<le> MakeDay 2024 2 31"
    for t using in_month_iff [of 2 t 2024] by (simp add: daysInMonth_def)
  then show ?thesis
    by (simp add: getExpensesByUserIdAndMonth_def post_eval makeday_eval js_sort_byDateDesc)
qed

lemma no_category_99: "map_of (categories (storeAfter posted)) 99 = None"
proof -
  have "categories (foldl (\<lambda>s e. fst (createExpense now s e)) s0 posted) = categories s0" for now s0
    by (induction posted arbitrary: s0) (simp_all add: createExpense_def Let_def)
  then show ?thesis by (simp add: storeAfter_def store_eval)
qed


text \<open>
  Claim C9. The totals have one entry for each category with an expense in the window,
  largest total first, and no other entry. Lemma \<open>category_totals_of_sound_store\<close> shows
  it for every store in which each expense has its category, and the order whenever no
  total is NaN. User 1 posts
  1.00 for the category 99, which does not exist, on 10 March 2024: \<open>createExpense\<close> stores
  it, the expenses of the day show it without a category, and both totals of MemStorage
  throw at \<^verbatim>\<open>category.name\<close>. DatabaseStorage joins the categories and returns no entry.
\<close>

theorem C9_totals_of_orphan_expense:
  "\<not> fk_invariant (storeAfter [insertOf ''1.00'' 99 1710028800000])
   \<and> map (\<lambda>e. (exp_id e, categoryId e, category e))
     (getExpensesByUserIdAndPeriod (storeAfter [insertOf ''1.00'' 99 1710028800000])
        1 ''day'' 1710028800000) = [(7, 99, None)]
   \<and> getCategoryTotalsByPeriod (storeAfter [insertOf ''1.00'' 99 1710028800000])
        1 ''day'' 1710028800000 = Inl TypeError
   \<and> getCategoryTotals (storeAfter [insertOf ''1.00'' 99 1710028800000]) 1 2024 3 = Inl TypeError
   \<and> db_getCategoryTotalsByPeriod (tables (storeAfter [insertOf ''1.00'' 99 1710028800000]))
        1 ''day'' 1710028800000 = Inr []"
proof -
  let ?s = "storeAfter [insertOf ''1.00'' 99 1710028800000]"
  have a: "map (\<lambda>e. (exp_id e, categoryId e, category e))
      (getExpensesByUserIdAndPeriod ?s 1 ''day'' 1710028800000) = [(7, 99, None)]"
    by (simp add: getExpensesByUserIdAndPeriod_def inPeriod_day post_eval Day_def msPerDay_def
      js_sort_byDateDesc withCategory_def spreadCategory_def)
  have "map (\<lambda>e. (categoryId e, amount e)) (getExpensesByUserIdAndPeriod ?s 1 ''day'' 1710028800000)
      = [(99, ''1.00'')]"
    using orphan_selected [THEN arg_cong, of "map snd"] by (simp add: comp_def)
  from foldl_addToTotals_pairs [OF this, of "[]"]
  have "foldl addToTotals [] (getExpensesByUserIdAndPeriod ?s 1 ''day'' 1710028800000)
      = [(99, Fin 1)]"
    by (simp add: parse_one fl_eval)
  then have b: "getCategoryTotalsByPeriod ?s 1 ''day'' 1710028800000 = Inl TypeError"
    by (simp add: getCategoryTotalsByPeriod_def categoryTotalsOf_def no_category_99)
  have "map (\<lambda>e. (categoryId e, amount e)) (getExpensesByUserIdAndMonth ?s 1 2024 3)
      = [(99, ''1.00'')]"
    using orphan_selected_month [THEN arg_cong, of "map snd"] by (simp add: comp_def)
  from foldl_addToTotals_pairs [OF this, of "[]"]
  have "foldl addToTotals [] (getExpensesByUserIdAndMonth ?s 1 2024 3) = [(99, Fin 1)]"
    by (simp add: parse_one fl_eval)
  then have c: "getCategoryTotals ?s 1 2024 3 = Inl TypeError"
    by (simp add: getCategoryTotals_def categoryTotalsOf_def no_category_99)
  have d: "db_getCategoryTotalsByPeriod (tables ?s) 1 ''day'' 1710028800000 = Inr []"
    by (simp add: db_getCategoryTotalsByPeriod_def periodWindow_day time_eval selectTotals_def
      groupSums_def joined_def tables_def inWindow_def post_eval)
  have f: "\<not> fk_invariant ?s"
    by (simp add: fk_invariant_def post_eval)
  show ?thesis by (intro conjI f a b c d)
qed

end
